theory Spec2Isabelle
  imports Complex_Main
begin

section \<open>Conventions of the embedding\<close>

text \<open>
  The numerical code of \<^verbatim>\<open>ocelot/cpbd/beam.py\<close> works on numpy arrays of float64. A finite
  float is modelled as a real number and arithmetic is exact, except where rounding decides
  the outcome: there the arithmetic is a parameter. An array is a list. A Python
  exception is a value of type \<open>error\<close>, and a function that may raise returns
  \<open>error + 'a\<close>.
\<close>

datatype error = IndexError | ValueError | TypeError | UnboundLocalError | OverflowError

section \<open>Boxcar smoothing: \<^verbatim>\<open>simple_filter\<close>\<close>

text \<open>
  One pass of the outer loop of \<^verbatim>\<open>simple_filter(x, p, iter)\<close>: for every index \<open>i\<close> the
  bounds \<open>i0 = i - p\<close> and \<open>i1 = i + p\<close> are clamped to \<open>0\<close> and \<open>n - 1\<close>, the samples
  \<open>x[i0], ..., x[i1]\<close> are added up from \<open>0\<close> (\<^verbatim>\<open>range(i0, i1+1)\<close> is empty when \<open>i1 < i0\<close>) and
  the sum is divided by \<open>i1 - i0 + 1\<close>. The pass reads the old array and fills a fresh one.
\<close>

definition filter_window :: "int \<Rightarrow> int \<Rightarrow> int \<Rightarrow> int \<times> int" where
  "filter_window n p i =
     (let i0 = i - p;
          i0 = (if i0 < 0 then 0 else i0);
          i1 = i + p;
          i1 = (if i1 > n - 1 then n - 1 else i1)
      in (i0, i1))"

definition filter_pass :: "int \<Rightarrow> real list \<Rightarrow> real list" where
  "filter_pass p x =
     (let n = int (length x)
      in map (\<lambda>i. case filter_window n p i of
                     (i0, i1) \<Rightarrow>
                       foldl (\<lambda>s j. s + x ! nat j) 0 [i0..i1] / real_of_int (i1 - i0 + 1))
             [0..n - 1])"

text \<open>The outer loop \<^verbatim>\<open>for k in range(iter)\<close>, which ends each pass with \<^verbatim>\<open>x = y\<close>.\<close>

fun filter_loop :: "nat \<Rightarrow> int \<Rightarrow> real list \<Rightarrow> real list" where
  "filter_loop 0 p x = x"
| "filter_loop (Suc k) p x = filter_loop k p (filter_pass p x)"

text \<open>
  \<^verbatim>\<open>simple_filter\<close> itself. With \<open>iter = 0\<close> the input is returned at once. With a negative
  \<open>iter\<close> the loop body never runs and \<^verbatim>\<open>return y\<close> reads a local that was never bound.
\<close>

definition simple_filter :: "real list \<Rightarrow> int \<Rightarrow> int \<Rightarrow> error + real list" where
  "simple_filter x p iter =
     (if iter = 0 then Inr x
      else if iter < 0 then Inl UnboundLocalError
      else Inr (filter_loop (nat iter) p x))"

text \<open>
  The smoothing as the specification words it: one boxcar pass replaces sample \<open>i\<close> by the
  unweighted average of the samples whose index lies in \<open>[i - p, i + p]\<close> and inside the
  array; the filter repeats the pass \<open>K\<close> times.
\<close>

definition boxcar_indices :: "nat \<Rightarrow> int \<Rightarrow> nat \<Rightarrow> nat list" where
  "boxcar_indices n p i = filter (\<lambda>j. int i - p \<le> int j \<and> int j \<le> int i + p) [0..<n]"

definition boxcar_pass :: "int \<Rightarrow> real list \<Rightarrow> real list" where
  "boxcar_pass p x =
     map (\<lambda>i. sum_list (map (\<lambda>j. x ! j) (boxcar_indices (length x) p i))
              / real (length (boxcar_indices (length x) p i)))
         [0..<length x]"

section \<open>Floating-point results that are not numbers\<close>

text \<open>
  numpy does not raise when a float64 operation has no finite result: the square root of a
  negative number and \<open>0 / 0\<close> are \<^verbatim>\<open>nan\<close>, a nonzero number divided by zero is
  \<^verbatim>\<open>inf\<close> or \<^verbatim>\<open>-inf\<close>, and a warning is printed. A value that such an operation may produce
  has type \<open>float\<close>: \<open>Some r\<close> is the finite number \<open>r\<close> and \<open>None\<close> stands for a result that is
  not a finite number. Arithmetic on \<open>None\<close> gives \<open>None\<close>.
\<close>

type_synonym float = "real option"

definition fadd :: "float \<Rightarrow> float \<Rightarrow> float" where
  "fadd a b = (case (a, b) of (Some u, Some v) \<Rightarrow> Some (u + v) | _ \<Rightarrow> None)"

definition fsub :: "float \<Rightarrow> float \<Rightarrow> float" where
  "fsub a b = (case (a, b) of (Some u, Some v) \<Rightarrow> Some (u - v) | _ \<Rightarrow> None)"

definition fmul :: "float \<Rightarrow> float \<Rightarrow> float" where
  "fmul a b = (case (a, b) of (Some u, Some v) \<Rightarrow> Some (u * v) | _ \<Rightarrow> None)"

definition fdiv :: "float \<Rightarrow> float \<Rightarrow> float" where
  "fdiv a b = (case (a, b) of
                 (Some u, Some v) \<Rightarrow> if v = 0 then None else Some (u / v)
               | _ \<Rightarrow> None)"

definition fneg :: "float \<Rightarrow> float" where
  "fneg a = (case a of Some u \<Rightarrow> Some (- u) | None \<Rightarrow> None)"

definition fsqrt :: "float \<Rightarrow> float" where
  "fsqrt a = (case a of Some u \<Rightarrow> if u < 0 then None else Some (sqrt u) | None \<Rightarrow> None)"

section \<open>The particle array\<close>

text \<open>
  Class \<^verbatim>\<open>ParticleArray\<close>: the coordinate matrix \<^verbatim>\<open>rparticles\<close> of shape \<open>(6, n)\<close>, a list of
  six rows \<open>x, px, y, py, tau, p\<close> here; the charge array \<^verbatim>\<open>q_array\<close>; the reference position
  \<^verbatim>\<open>s\<close> and the reference energy \<^verbatim>\<open>E\<close> (fields \<open>ref_s\<close> and \<open>ref_E\<close>). The coordinates are
  finite numbers. The constructor \<^verbatim>\<open>ParticleArray(n)\<close> fills both arrays with zeros.
\<close>

record ParticleArray =
  rparticles :: "real list list"
  q_array :: "real list"
  ref_s :: real
  ref_E :: float

definition ParticleArray_init :: "nat \<Rightarrow> ParticleArray" where
  "ParticleArray_init n =
     \<lparr>rparticles = replicate 6 (replicate n 0), q_array = replicate n 0,
      ref_s = 0, ref_E = Some 0\<rparr>"

definition ParticleArray_x :: "ParticleArray \<Rightarrow> real list" where
  "ParticleArray_x a = rparticles a ! 0"

definition ParticleArray_px :: "ParticleArray \<Rightarrow> real list" where
  "ParticleArray_px a = rparticles a ! 1"

definition ParticleArray_y :: "ParticleArray \<Rightarrow> real list" where
  "ParticleArray_y a = rparticles a ! 2"

definition ParticleArray_py :: "ParticleArray \<Rightarrow> real list" where
  "ParticleArray_py a = rparticles a ! 3"

definition ParticleArray_tau :: "ParticleArray \<Rightarrow> real list" where
  "ParticleArray_tau a = rparticles a ! 4"

definition ParticleArray_p :: "ParticleArray \<Rightarrow> real list" where
  "ParticleArray_p a = rparticles a ! 5"

text \<open>The shape \<open>(6, n)\<close> of a coordinate matrix, and the invariant that there is one charge
  per column.\<close>

definition has_shape :: "real list list \<Rightarrow> nat \<Rightarrow> bool" where
  "has_shape rp n \<longleftrightarrow> length rp = 6 \<and> list_all (\<lambda>r. length r = n) rp"


subsection \<open>\<^verbatim>\<open>rm_tails\<close>\<close>

text \<open>
  \<^verbatim>\<open>np.argwhere\<close> of a boolean array lists the indices where it holds, \<^verbatim>\<open>np.unique\<close> sorts
  and removes duplicates, \<^verbatim>\<open>np.delete(m, idxs, axis=1)\<close> drops the listed columns of every row.
\<close>

definition argwhere :: "('a \<Rightarrow> bool) \<Rightarrow> 'a list \<Rightarrow> nat list" where
  "argwhere P xs = filter (\<lambda>i. P (xs ! i)) [0..<length xs]"





subsection \<open>\<^verbatim>\<open>list2array\<close>\<close>

text \<open>
  Class \<^verbatim>\<open>Particle\<close> (fields with the prefix \<open>part_\<close>). \<^verbatim>\<open>self[idx] = p\<close> writes the six
  coordinates of \<open>p\<close> into column \<open>idx\<close> and sets the reference position. \<^verbatim>\<open>list2array(p_list)\<close>
  replaces \<^verbatim>\<open>rparticles\<close> by a zero matrix of shape \<open>(6, len(p_list))\<close>, stores every particle
  in its column, and takes \<open>s\<close> and \<open>E\<close> from \<^verbatim>\<open>p_list[0]\<close>, which raises \<^verbatim>\<open>IndexError\<close> for an
  empty list.
\<close>

record Particle =
  part_x :: real
  part_y :: real
  part_px :: real
  part_py :: real
  part_s :: real
  part_p :: real
  part_tau :: real
  part_E :: real

definition ParticleArray_setitem :: "ParticleArray \<Rightarrow> nat \<Rightarrow> Particle \<Rightarrow> ParticleArray" where
  "ParticleArray_setitem self idx p =
     self\<lparr>rparticles :=
            [(rparticles self ! 0)[idx := part_x p], (rparticles self ! 1)[idx := part_px p],
             (rparticles self ! 2)[idx := part_y p], (rparticles self ! 3)[idx := part_py p],
             (rparticles self ! 4)[idx := part_tau p], (rparticles self ! 5)[idx := part_p p]],
          ref_s := part_s p\<rparr>"

definition list2array :: "ParticleArray \<Rightarrow> Particle list \<Rightarrow> error + ParticleArray" where
  "list2array self p_list =
     (let a0 = self\<lparr>rparticles := replicate 6 (replicate (length p_list) 0)\<rparr>;
          a1 = foldl (\<lambda>a (i, p). ParticleArray_setitem a i p) a0 (zip [0..<length p_list] p_list)
      in case p_list of
           [] \<Rightarrow> Inl IndexError
         | p0 # _ \<Rightarrow> Inr (a1\<lparr>ref_s := part_s p0, ref_E := Some (part_E p0)\<rparr>))"

subsection \<open>\<^verbatim>\<open>recalculate_ref_particle\<close>\<close>

text \<open>
  The electron rest energy \<^verbatim>\<open>m_e_GeV\<close> is a constant of \<^verbatim>\<open>ocelot.common.globals\<close>, which is
  not among the sources; it is the first argument here. Reading element \<open>0\<close> of an empty row
  raises \<^verbatim>\<open>IndexError\<close>. The two in-place subtractions change row 5, then row 4; the scalars
  \<^verbatim>\<open>p()[0]\<close> and \<^verbatim>\<open>tau()[0]\<close> are read anew in each statement, as in the source.
\<close>

definition first_of :: "real list \<Rightarrow> error + real" where
  "first_of xs = (case xs of [] \<Rightarrow> Inl IndexError | v # _ \<Rightarrow> Inr v)"

definition recalculate_ref_particle :: "real \<Rightarrow> ParticleArray \<Rightarrow> error + ParticleArray" where
  "recalculate_ref_particle m_e_GeV p_array =
     (let E = ref_E p_array;
          pref = fmul (fsqrt (fsub (fdiv (fmul E E) (Some (m_e_GeV * m_e_GeV))) (Some 1)))
                      (Some m_e_GeV)
      in case first_of (ParticleArray_p p_array) of Inl e \<Rightarrow> Inl e | Inr p0 \<Rightarrow>
         let Enew = fadd (fmul (Some p0) pref) E
         in case first_of (ParticleArray_tau p_array) of Inl e \<Rightarrow> Inl e | Inr tau0 \<Rightarrow>
            let s_new = ref_s p_array - tau0
            in case first_of (ParticleArray_p p_array) of Inl e \<Rightarrow> Inl e | Inr p0' \<Rightarrow>
               let a1 = p_array\<lparr>rparticles :=
                          (rparticles p_array)[5 := map (\<lambda>v. v - p0') (ParticleArray_p p_array)]\<rparr>
               in case first_of (ParticleArray_tau a1) of Inl e \<Rightarrow> Inl e | Inr tau0' \<Rightarrow>
                  let a2 = a1\<lparr>rparticles :=
                             (rparticles a1)[4 := map (\<lambda>v. v - tau0') (ParticleArray_tau a1)]\<rparr>
                  in Inr (a2\<lparr>ref_E := Enew, ref_s := s_new\<rparr>))"

section \<open>Array reductions\<close>

text \<open>
  \<^verbatim>\<open>np.sum\<close>, \<^verbatim>\<open>np.mean\<close> and \<^verbatim>\<open>np.std\<close> of an array whose entries may be not-a-number. The mean
  divides the sum by the number of entries, so the mean of an empty array is \<open>0 / 0\<close>, not a
  number. \<^verbatim>\<open>np.std\<close> is the population standard deviation.
\<close>

definition np_sum :: "float list \<Rightarrow> float" where
  "np_sum xs = foldl fadd (Some 0) xs"

definition np_mean :: "float list \<Rightarrow> float" where
  "np_mean xs = fdiv (np_sum xs) (Some (real (length xs)))"

definition np_std :: "float list \<Rightarrow> float" where
  "np_std xs = (let m = np_mean xs in fsqrt (np_mean (map (\<lambda>v. fmul (fsub v m) (fsub v m)) xs)))"

text \<open>
  The elementwise product of two one-dimensional arrays: of equal lengths entry by entry;
  an array of length one is broadcast along the other; any other pair of lengths raises
  \<^verbatim>\<open>ValueError\<close>.
\<close>

definition np_times :: "float list \<Rightarrow> float list \<Rightarrow> error + float list" where
  "np_times xs ys =
     (if length xs = length ys then Inr (map2 fmul xs ys)
      else if length xs = 1 then Inr (map (fmul (hd xs)) ys)
      else if length ys = 1 then Inr (map (\<lambda>u. fmul u (hd ys)) xs)
      else Inl ValueError)"

section \<open>Second moments: \<^verbatim>\<open>moments\<close>\<close>

text \<open>
  \<^verbatim>\<open>moments(x, y, cut=0)\<close> on two arrays of finite numbers. With \<open>cut > 0\<close> the function goes on
  to \<^verbatim>\<open>n1 = np.round(n*(100-cut)/100)\<close> and \<^verbatim>\<open>inds0[0:n1]\<close>; \<open>n1\<close> is a float, and numpy (from
  version 1.12) raises \<^verbatim>\<open>TypeError\<close> for a slice bound that is not an integer. Everything before
  that statement is float64 arithmetic, which does not raise.
\<close>

definition moments ::
  "real list \<Rightarrow> real list \<Rightarrow> real \<Rightarrow> error + (float \<times> float \<times> float \<times> float \<times> float \<times> float)" where
  "moments x y cut' =
     (let n = Some (real (length x));
          mx = np_mean (map Some x);
          my = np_mean (map Some y);
          x = map (\<lambda>v. fsub (Some v) mx) x;
          y = map (\<lambda>v. fsub (Some v) my) y;
          x2 = map2 fmul x x;
          mxx = fdiv (np_sum x2) n;
          y2 = map2 fmul y y;
          myy = fdiv (np_sum y2) n
      in case np_times x y of Inl e \<Rightarrow> Inl e | Inr xy \<Rightarrow>
         let mxy = fdiv (np_sum xy) n;
             emitt = fsqrt (fsub (fmul mxx myy) (fmul mxy mxy))
         in if cut' > 0 then Inl TypeError
            else Inr (mx, my, mxx, mxy, myy, emitt))"

text \<open>
  The quantities as the specification names them: the mean of a sample, and the population
  (\<open>1/n\<close>) centered second moment of two samples of one length.
\<close>

definition sample_mean :: "real list \<Rightarrow> real" where
  "sample_mean xs = sum_list xs / real (length xs)"

definition centered_moment :: "real list \<Rightarrow> real list \<Rightarrow> real" where
  "centered_moment xs ys =
     sum_list (map2 (\<lambda>u v. (u - sample_mean xs) * (v - sample_mean ys)) xs ys) / real (length xs)"

section \<open>Beam envelope: \<^verbatim>\<open>get_envelope\<close>\<close>

text \<open>
  Class \<^verbatim>\<open>Twiss\<close>, with the attributes that \<^verbatim>\<open>get_envelope\<close> reads (the dispersion \<open>Dx, Dy, Dxp,
  Dyp\<close> of its argument \<^verbatim>\<open>tws_i\<close>) or assigns in the object it returns; every other attribute
  keeps the default of \<^verbatim>\<open>Twiss()\<close>. The fields carry the prefix \<open>tws_\<close>.
\<close>

record Twiss =
  tws_Dx :: real
  tws_Dy :: real
  tws_Dxp :: real
  tws_Dyp :: real
  tws_x :: float
  tws_y :: float
  tws_px :: float
  tws_py :: float
  tws_xx :: float
  tws_xpx :: float
  tws_pxpx :: float
  tws_yy :: float
  tws_ypy :: float
  tws_pypy :: float
  tws_p :: float
  tws_E :: float
  tws_emit_x :: float
  tws_emit_y :: float
  tws_beta_x :: float
  tws_beta_y :: float
  tws_alpha_x :: float
  tws_alpha_y :: float

definition Twiss_init :: Twiss where
  "Twiss_init =
     \<lparr>tws_Dx = 0, tws_Dy = 0, tws_Dxp = 0, tws_Dyp = 0,
      tws_x = Some 0, tws_y = Some 0, tws_px = Some 0, tws_py = Some 0,
      tws_xx = Some 0, tws_xpx = Some 0, tws_pxpx = Some 0,
      tws_yy = Some 0, tws_ypy = Some 0, tws_pypy = Some 0,
      tws_p = Some 0, tws_E = Some 0, tws_emit_x = Some 0, tws_emit_y = Some 0,
      tws_beta_x = Some 0, tws_beta_y = Some 0, tws_alpha_x = Some 0, tws_alpha_y = Some 0\<rparr>"

text \<open>
  \<^verbatim>\<open>np.mean((u - mu) * (v - mv))\<close> for two rows of the coordinate matrix (the rows of a
  two-dimensional array have one length).
\<close>

definition mean_product :: "real list \<Rightarrow> float \<Rightarrow> real list \<Rightarrow> float \<Rightarrow> float" where
  "mean_product u mu v mv =
     np_mean (map2 (\<lambda>a b. fmul (fsub (Some a) mu) (fsub (Some b) mv)) u v)"

text \<open>
  \<^verbatim>\<open>get_envelope(p_array, tws_i)\<close>. The flag \<^verbatim>\<open>ne_flag\<close> says whether the module \<^verbatim>\<open>numexpr\<close>
  was imported; \<^verbatim>\<open>ne.evaluate\<close> evaluates the expression in its string on the local variables
  of the caller at the time of the call, so both branches compute the same arrays. In
  either branch the statement that corrects \<open>px\<close> assigns to \<open>px\<close>, and the statement that
  corrects \<open>py\<close> comes after it and reads \<open>px\<close>.
\<close>

definition get_envelope :: "bool \<Rightarrow> ParticleArray \<Rightarrow> Twiss \<Rightarrow> Twiss" where
  "get_envelope ne_flag p_array tws_i =
     (let p = ParticleArray_p p_array;
          dx = map (\<lambda>v. tws_Dx tws_i * v) p;
          dy = map (\<lambda>v. tws_Dy tws_i * v) p;
          dpx = map (\<lambda>v. tws_Dxp tws_i * v) p;
          dpy = map (\<lambda>v. tws_Dyp tws_i * v) p;
          x = map2 (-) (ParticleArray_x p_array) dx;
          px = map2 (-) (ParticleArray_px p_array) dpx;
          y = map2 (-) (ParticleArray_y p_array) dy;
          py = map2 (-) (ParticleArray_py p_array) dpy;
          px = (if ne_flag then map2 (\<lambda>px py. px * (1 - 0.5 * px * px - 0.5 * py * py)) px py
                else map2 (\<lambda>px py. px * (1 - 0.5 * px * px - 0.5 * py * py)) px py);
          py = (if ne_flag then map2 (\<lambda>px py. py * (1 - 0.5 * px * px - 0.5 * py * py)) px py
                else map2 (\<lambda>px py. py * (1 - 0.5 * px * px - 0.5 * py * py)) px py);
          tx = np_mean (map Some x);
          ty = np_mean (map Some y);
          tpx = np_mean (map Some px);
          tpy = np_mean (map Some py);
          xx = mean_product x tx x tx;
          xpx = mean_product x tx px tpx;
          pxpx = mean_product px tpx px tpx;
          yy = mean_product y ty y ty;
          ypy = mean_product y ty py tpy;
          pypy = mean_product py tpy py tpy;
          emit_x = fsqrt (fsub (fmul xx pxpx) (fmul xpx xpx));
          emit_y = fsqrt (fsub (fmul yy pypy) (fmul ypy ypy))
      in Twiss_init\<lparr>tws_x := tx, tws_y := ty, tws_px := tpx, tws_py := tpy,
           tws_xx := xx, tws_xpx := xpx, tws_pxpx := pxpx,
           tws_yy := yy, tws_ypy := ypy, tws_pypy := pypy,
           tws_p := np_mean (map Some (ParticleArray_p p_array)), tws_E := ref_E p_array,
           tws_emit_x := emit_x, tws_emit_y := emit_y,
           tws_beta_x := fdiv xx emit_x, tws_beta_y := fdiv yy emit_y,
           tws_alpha_x := fdiv (fneg xpx) emit_x, tws_alpha_y := fdiv (fneg ypy) emit_y\<rparr>)"

text \<open>
  The correction as the specification words it: both momenta are multiplied by the one factor
  \<open>1 - px\<^sup>2/2 - py\<^sup>2/2\<close> of the uncorrected values.
\<close>

definition small_angle_correction :: "real \<Rightarrow> real \<Rightarrow> real \<times> real" where
  "small_angle_correction px py =
     (px * (1 - 0.5 * px\<^sup>2 - 0.5 * py\<^sup>2), py * (1 - 0.5 * px\<^sup>2 - 0.5 * py\<^sup>2))"

section \<open>Beam matching\<close>

text \<open>
  \<^verbatim>\<open>m_from_twiss(Tw1, Tw2)\<close>: the two arguments are lists \<open>[alpha, beta, psi]\<close>, triples here; the
  result is the matrix \<open>((M00, M01), (M10, M11))\<close>. \<^verbatim>\<open>beam_matching\<close> calls it with numpy
  scalars, so its divisions and square roots do not raise.
\<close>

definition fcos :: "float \<Rightarrow> float" where
  "fcos a = (case a of Some u \<Rightarrow> Some (cos u) | None \<Rightarrow> None)"

definition fsin :: "float \<Rightarrow> float" where
  "fsin a = (case a of Some u \<Rightarrow> Some (sin u) | None \<Rightarrow> None)"

definition m_from_twiss ::
  "float \<times> float \<times> float \<Rightarrow> float \<times> float \<times> float \<Rightarrow> (float \<times> float) \<times> (float \<times> float)" where
  "m_from_twiss Tw1 Tw2 =
     (let b1 = fst (snd Tw1);
          a1 = fst Tw1;
          psi1 = snd (snd Tw1);
          b2 = fst (snd Tw2);
          a2 = fst Tw2;
          psi2 = snd (snd Tw2);
          psi = fsub psi2 psi1;
          cosp = fcos psi;
          sinp = fsin psi;
          M00 = fmul (fsqrt (fdiv b2 b1)) (fadd cosp (fmul a1 sinp));
          M01 = fmul (fsqrt (fmul b2 b1)) sinp;
          M10 = fdiv (fsub (fmul (fsub a1 a2) cosp) (fmul (fadd (Some 1) (fmul a1 a2)) sinp))
                     (fsqrt (fmul b2 b1));
          M11 = fmul (fsqrt (fdiv b1 b2)) (fsub cosp (fmul a2 sinp))
      in ((M00, M01), (M10, M11)))"

text \<open>
  Assigning a one-dimensional array to a row or a column of \<open>k\<close> entries: the array must have
  \<open>k\<close> entries, or one entry, which is then repeated; otherwise numpy raises \<^verbatim>\<open>ValueError\<close>
  (the shapes cannot be broadcast).
\<close>

definition assign_slice :: "nat \<Rightarrow> 'a list \<Rightarrow> error + 'a list" where
  "assign_slice k v =
     (if length v = k then Inr v
      else if length v = 1 then Inr (replicate k (hd v))
      else Inl ValueError)"

text \<open>Comparison of floats: a comparison with not-a-number is false.\<close>

definition fle :: "float \<Rightarrow> float \<Rightarrow> bool" where
  "fle a b = (case (a, b) of (Some u, Some v) \<Rightarrow> u \<le> v | _ \<Rightarrow> False)"

text \<open>
  The measured optics of one plane and the matrix to the target optics: the lines from
  \<^verbatim>\<open>moments(pd[inds, 0], pd[inds, 1])\<close> to \<^verbatim>\<open>M = m_from_twiss([alpha, beta, 0], x_opt)\<close>. The
  two arrays handed to \<^verbatim>\<open>moments\<close> have one shape and \<open>cut\<close> is left at \<open>0\<close>.
\<close>

definition plane_matrix ::
  "real list \<Rightarrow> real list \<Rightarrow> real \<times> real \<times> real \<Rightarrow> error + (float \<times> float) \<times> (float \<times> float)" where
  "plane_matrix u us opt =
     (case moments u us 0 of
        Inl e \<Rightarrow> Inl e
      | Inr (mx, mxs, mxx, mxxs, mxsxs, emitx0) \<Rightarrow>
          let beta = fdiv mxx emitx0;
              alpha = fdiv (fneg mxxs) emitx0
          in Inr (m_from_twiss (alpha, beta, Some 0)
                    (Some (fst opt), Some (fst (snd opt)), Some (snd (snd opt)))))"

definition apply_row :: "float \<Rightarrow> float \<Rightarrow> real list \<Rightarrow> real list \<Rightarrow> float list" where
  "apply_row c d u us = map2 (\<lambda>a b. fadd (fmul c (Some a)) (fmul d (Some b))) u us"

text \<open>Sequencing of statements that may raise: the first exception ends the run.\<close>

definition and_then :: "error + 'a \<Rightarrow> ('a \<Rightarrow> error + 'b) \<Rightarrow> error + 'b" where
  "and_then m f = (case m of Inl e \<Rightarrow> Inl e | Inr v \<Rightarrow> f v)"

text \<open>
  The function \<^verbatim>\<open>beam_matching\<close> and the method \<^verbatim>\<open>BeamTransform.beam_matching\<close> share their
  body, after their first statement has fixed the number \<open>k\<close> of rows of the work array
  \<^verbatim>\<open>pd\<close> (shape \<open>(k, 6)\<close>). \<^verbatim>\<open>particles\<close> is the coordinate matrix of shape \<open>(6, n)\<close>.

  \<open>copy_columns\<close>: the six statements \<^verbatim>\<open>pd[:, c] = particles[c]\<close>, which copy the rows of
  \<^verbatim>\<open>particles\<close> into the columns of \<^verbatim>\<open>pd\<close>. The result lists the six columns of \<^verbatim>\<open>pd\<close>.
\<close>

definition copy_columns :: "nat \<Rightarrow> real list list \<Rightarrow> error + real list list" where
  "copy_columns k particles =
     and_then (assign_slice k (particles ! 0)) (\<lambda>pd0.
     and_then (assign_slice k (particles ! 1)) (\<lambda>pd1.
     and_then (assign_slice k (particles ! 2)) (\<lambda>pd2.
     and_then (assign_slice k (particles ! 3)) (\<lambda>pd3.
     and_then (assign_slice k (particles ! 4)) (\<lambda>pd4.
     and_then (assign_slice k (particles ! 5)) (\<lambda>pd5.
     Inr [pd0, pd1, pd2, pd3, pd4, pd5]))))))"

text \<open>
  \<open>window_inds\<close>: the indices \<^verbatim>\<open>inds\<close> of the rows of \<^verbatim>\<open>pd\<close> with
  \<open>z0 + sig0 * bounds[0] \<le> tau \<le> z0 + sig0 * bounds[1]\<close>, where \<open>z0\<close> and \<open>sig0\<close> are the mean
  and the standard deviation of column 4.
\<close>

definition window_inds :: "real list \<Rightarrow> real \<times> real \<Rightarrow> nat list" where
  "window_inds pd4 bounds =
     (let z0 = np_mean (map Some pd4);
          sig0 = np_std (map Some pd4)
      in argwhere (\<lambda>v. fle (fadd z0 (fmul sig0 (Some (fst bounds)))) (Some v)
                       \<and> fle (Some v) (fadd z0 (fmul sig0 (Some (snd bounds))))) pd4)"

text \<open>
  \<open>match_plane\<close>: one plane. The moments of the rows listed in \<^verbatim>\<open>inds\<close> give the matrix; the
  two statements \<^verbatim>\<open>particles[r] = M[r, 0]*pd[:, c] + M[r, 1]*pd[:, c+1]\<close> compute arrays of
  \<open>k\<close> entries from all rows of \<^verbatim>\<open>pd\<close> and assign them to rows of \<open>n\<close> entries of
  \<^verbatim>\<open>particles\<close>.
\<close>

definition match_plane ::
  "nat \<Rightarrow> real list \<Rightarrow> real list \<Rightarrow> nat list \<Rightarrow> real \<times> real \<times> real
     \<Rightarrow> error + float list \<times> float list" where
  "match_plane n u us inds opt =
     and_then (plane_matrix (map (\<lambda>i. u ! i) inds) (map (\<lambda>i. us ! i) inds) opt) (\<lambda>M.
     and_then (assign_slice n (apply_row (fst (fst M)) (snd (fst M)) u us)) (\<lambda>row0.
     and_then (assign_slice n (apply_row (fst (snd M)) (snd (snd M)) u us)) (\<lambda>row1.
     Inr (row0, row1))))"

text \<open>The body: the result is the matrix \<^verbatim>\<open>particles\<close> after the call.\<close>

definition beam_matching_body ::
  "nat \<Rightarrow> real list list \<Rightarrow> real \<times> real \<Rightarrow> real \<times> real \<times> real \<Rightarrow> real \<times> real \<times> real
     \<Rightarrow> error + float list list" where
  "beam_matching_body k particles bounds x_opt y_opt =
     and_then (copy_columns k particles) (\<lambda>pd.
     let inds = window_inds (pd ! 4) bounds;
         n = length (particles ! 0)
     in and_then (match_plane n (pd ! 0) (pd ! 1) inds x_opt) (\<lambda>rx.
        and_then (match_plane n (pd ! 2) (pd ! 3) inds y_opt) (\<lambda>ry.
        Inr [fst rx, snd rx, fst ry, snd ry,
             map Some (particles ! 4), map Some (particles ! 5)])))"

text \<open>
  The function \<^verbatim>\<open>beam_matching\<close> of the module starts with
  \<^verbatim>\<open>pd = np.zeros((int(len(particles)/6), 6))\<close>, and \<^verbatim>\<open>len\<close> of a two-dimensional array is the
  number of its rows. The method \<^verbatim>\<open>BeamTransform.beam_matching\<close> starts with
  \<^verbatim>\<open>pd = np.zeros((int(particles.size / 6), 6))\<close>, and \<^verbatim>\<open>size\<close> is the number of entries.
\<close>

definition beam_matching ::
  "real list list \<Rightarrow> real \<times> real \<Rightarrow> real \<times> real \<times> real \<Rightarrow> real \<times> real \<times> real
     \<Rightarrow> error + float list list" where
  "beam_matching particles bounds x_opt y_opt =
     beam_matching_body (length particles div 6) particles bounds x_opt y_opt"

definition BeamTransform_beam_matching ::
  "real list list \<Rightarrow> real \<times> real \<Rightarrow> real \<times> real \<times> real \<Rightarrow> real \<times> real \<times> real
     \<Rightarrow> error + float list list" where
  "BeamTransform_beam_matching particles bounds x_opt y_opt =
     beam_matching_body (sum_list (map length particles) div 6) particles bounds x_opt y_opt"

section \<open>Slice analysis: \<^verbatim>\<open>slice_analysis\<close>\<close>

text \<open>
  \<^verbatim>\<open>np.round\<close> rounds to the nearest integer and a tie to the even neighbour. \<^verbatim>\<open>np.cumsum\<close> is
  the array of running sums. \<^verbatim>\<open>z.argsort()\<close> is the list of indices that sorts \<open>z\<close>; it is
  numpy's, and it is modelled as the specification describes the sort: stable, ties in their
  original order. \<^verbatim>\<open>x[indx]\<close> picks the entries of \<open>x\<close> at the indices \<open>indx\<close>.
\<close>

definition np_round :: "real \<Rightarrow> int" where
  "np_round r =
     (let f = \<lfloor>r\<rfloor>; d = r - of_int f
      in if d < 1 / 2 then f else if d > 1 / 2 then f + 1 else if even f then f else f + 1)"

fun cumsum_from :: "float \<Rightarrow> float list \<Rightarrow> float list" where
  "cumsum_from a [] = []"
| "cumsum_from a (v # vs) = fadd a v # cumsum_from (fadd a v) vs"






section \<open>Second moments in float64 arithmetic\<close>

text \<open>
  Which sign the radicand \<open>mxx*myy - mxy*mxy\<close> of \<^verbatim>\<open>moments\<close> has is decided by rounding. For
  this function the arithmetic is therefore a parameter: \<open>ar_round\<close> gives the float that an
  operation returns for its exact result, and \<open>ar_sum\<close> is \<^verbatim>\<open>np.sum\<close>. As before \<open>None\<close> is a
  result that is not a finite number and every operation of \<^verbatim>\<open>moments\<close> keeps it; a division by
  zero has no finite result, and the square root of a negative number is \<^verbatim>\<open>nan\<close>.
\<close>

record arith =
  ar_round :: "real \<Rightarrow> float"
  ar_sum :: "float list \<Rightarrow> float"

definition r_sub :: "arith \<Rightarrow> float \<Rightarrow> float \<Rightarrow> float" where
  "r_sub ar a b = (case (a, b) of (Some u, Some v) \<Rightarrow> ar_round ar (u - v) | _ \<Rightarrow> None)"

definition r_mul :: "arith \<Rightarrow> float \<Rightarrow> float \<Rightarrow> float" where
  "r_mul ar a b = (case (a, b) of (Some u, Some v) \<Rightarrow> ar_round ar (u * v) | _ \<Rightarrow> None)"

definition r_div :: "arith \<Rightarrow> float \<Rightarrow> float \<Rightarrow> float" where
  "r_div ar a b = (case (a, b) of
                    (Some u, Some v) \<Rightarrow> if v = 0 then None else ar_round ar (u / v)
                  | _ \<Rightarrow> None)"

definition r_sqrt :: "arith \<Rightarrow> float \<Rightarrow> float" where
  "r_sqrt ar a = (case a of Some u \<Rightarrow> if u < 0 then None else ar_round ar (sqrt u) | None \<Rightarrow> None)"

text \<open>
  Exact arithmetic: nothing is rounded, and the operations are those of the sections above.
\<close>

definition exact :: arith where
  "exact = \<lparr>ar_round = Some, ar_sum = np_sum\<rparr>"

text \<open>
  IEEE 754 binary64 with rounding to nearest, ties to even, as numpy computes with float64:
  a number of binary exponent \<open>e\<close> is rounded to a multiple of \<open>pow2 (e - 52)\<close>, the subnormal
  numbers are the multiples of \<open>pow2 (- 1074)\<close>, and a result that rounds to \<open>pow2 1024\<close> or
  more in magnitude is infinite. The sum adds the entries from left to right and rounds
  every partial sum, which is how a short array is summed; numpy adds a long array in
  blocks, and what is proved for every arithmetic holds for every order of summation.
\<close>

definition pow2 :: "int \<Rightarrow> real" where
  "pow2 k = (if 0 \<le> k then 2 ^ nat k else 1 / 2 ^ nat (- k))"

definition float64_round :: "real \<Rightarrow> float" where
  "float64_round r =
     (if r = 0 then Some 0
      else
        let e = max \<lfloor>log 2 \<bar>r\<bar>\<rfloor> (- 1022);
            q = pow2 (e - 52);
            v = real_of_int (np_round (r / q)) * q
        in if \<bar>v\<bar> < pow2 1024 then Some v else None)"

definition float64 :: arith where
  "float64 =
     \<lparr>ar_round = float64_round,
      ar_sum = foldl (\<lambda>a b. case (a, b) of (Some u, Some v) \<Rightarrow> float64_round (u + v) | _ \<Rightarrow> None)
                     (Some 0)\<rparr>"

text \<open>
  \<^verbatim>\<open>moments(x, y, cut=0)\<close> statement by statement, in the arithmetic \<open>ar\<close>; \<^verbatim>\<open>np.mean\<close> divides
  the sum by the number of entries and \<^verbatim>\<open>x*y\<close> broadcasts as above.
\<close>

definition np_times_in :: "arith \<Rightarrow> float list \<Rightarrow> float list \<Rightarrow> error + float list" where
  "np_times_in ar xs ys =
     (if length xs = length ys then Inr (map2 (r_mul ar) xs ys)
      else if length xs = 1 then Inr (map (r_mul ar (hd xs)) ys)
      else if length ys = 1 then Inr (map (\<lambda>u. r_mul ar u (hd ys)) xs)
      else Inl ValueError)"

definition moments_in ::
  "arith \<Rightarrow> real list \<Rightarrow> real list \<Rightarrow> real
     \<Rightarrow> error + (float \<times> float \<times> float \<times> float \<times> float \<times> float)" where
  "moments_in ar x y cut' =
     (let n = Some (real (length x));
          mx = r_div ar (ar_sum ar (map Some x)) (Some (real (length x)));
          my = r_div ar (ar_sum ar (map Some y)) (Some (real (length y)));
          x = map (\<lambda>v. r_sub ar (Some v) mx) x;
          y = map (\<lambda>v. r_sub ar (Some v) my) y;
          x2 = map2 (r_mul ar) x x;
          mxx = r_div ar (ar_sum ar x2) n;
          y2 = map2 (r_mul ar) y y;
          myy = r_div ar (ar_sum ar y2) n
      in case np_times_in ar x y of Inl e \<Rightarrow> Inl e | Inr xy \<Rightarrow>
         let mxy = r_div ar (ar_sum ar xy) n;
             emitt = r_sqrt ar (r_sub ar (r_mul ar mxx myy) (r_mul ar mxy mxy))
         in if cut' > 0 then Inl TypeError
            else Inr (mx, my, mxx, mxy, myy, emitt))"

text \<open>
  The quantities as the specification names them, computed in the arithmetic \<open>ar\<close>: the mean,
  the population (\<open>1/n\<close>) centered second moment, and the radicand
  \<open>var_x * var_y - cov_xy\<^sup>2\<close> of the emittance.
\<close>

definition mean_in :: "arith \<Rightarrow> real list \<Rightarrow> float" where
  "mean_in ar xs = r_div ar (ar_sum ar (map Some xs)) (Some (real (length xs)))"

definition centered_moment_in :: "arith \<Rightarrow> real list \<Rightarrow> real list \<Rightarrow> float" where
  "centered_moment_in ar xs ys =
     r_div ar
       (ar_sum ar (map2 (\<lambda>u v. r_mul ar (r_sub ar (Some u) (mean_in ar xs))
                                          (r_sub ar (Some v) (mean_in ar ys))) xs ys))
       (Some (real (length xs)))"

definition radicand_in :: "arith \<Rightarrow> real list \<Rightarrow> real list \<Rightarrow> float" where
  "radicand_in ar xs ys =
     r_sub ar (r_mul ar (centered_moment_in ar xs xs) (centered_moment_in ar ys ys))
              (r_mul ar (centered_moment_in ar xs ys) (centered_moment_in ar xs ys))"

section \<open>The tuning loop: \<^verbatim>\<open>Optimizer.max_sase\<close>\<close>

text \<open>
  \<^verbatim>\<open>mint/mint.py\<close>. The machine is outside the program: its state has an arbitrary type \<open>'m\<close>,
  and the methods of the machine interface \<^verbatim>\<open>mi\<close> are functions on it (a read may change the
  state as well). \<^verbatim>\<open>get_alarms\<close> returns a list of levels (a single number is a list of
  one). \<^verbatim>\<open>dp.get_limits(name)\<close> returns the pair of limits of an actuator; the class
  \<^verbatim>\<open>DeviceProperties\<close> of the source does not define it, so it is a field of the optimizer
  here, and so is the effect of \<^verbatim>\<open>sleep\<close> on the machine. Printing, and file logging (off by
  default), are left out.
\<close>

record 'm machine_interface =
  mi_get_alarms :: "'m \<Rightarrow> real list \<times> 'm"
  mi_get_sase :: "'m \<Rightarrow> real \<times> 'm"
  mi_set_value :: "string \<Rightarrow> real \<Rightarrow> 'm \<Rightarrow> 'm"
  mi_init_corrector_vals :: "string list \<Rightarrow> 'm \<Rightarrow> real list \<times> 'm"

record 'm Optimizer =
  opt_mi :: "'m machine_interface"
  opt_get_limits :: "string \<Rightarrow> real \<times> real"
  opt_timeout :: real
  opt_sleep :: "real \<Rightarrow> 'm \<Rightarrow> 'm"

text \<open>
  The run of the program is observed through the calls it makes: the state of a run is the
  machine together with the list of the calls made so far, in order.
\<close>

datatype call = Set_value string real | Sleep real | Get_sase | Get_alarms
  | Init_corrector_vals "string list"

record 'm world =
  machine :: 'm
  calls :: "call list"

definition do_set_value :: "'m Optimizer \<Rightarrow> string \<Rightarrow> real \<Rightarrow> 'm world \<Rightarrow> 'm world" where
  "do_set_value self name val w =
     \<lparr>machine = mi_set_value (opt_mi self) name val (machine w),
      calls = calls w @ [Set_value name val]\<rparr>"

definition do_sleep :: "'m Optimizer \<Rightarrow> real \<Rightarrow> 'm world \<Rightarrow> 'm world" where
  "do_sleep self t w = \<lparr>machine = opt_sleep self t (machine w), calls = calls w @ [Sleep t]\<rparr>"

definition do_get_sase :: "'m Optimizer \<Rightarrow> 'm world \<Rightarrow> real \<times> 'm world" where
  "do_get_sase self w =
     (fst (mi_get_sase (opt_mi self) (machine w)),
      \<lparr>machine = snd (mi_get_sase (opt_mi self) (machine w)), calls = calls w @ [Get_sase]\<rparr>)"

definition do_get_alarms :: "'m Optimizer \<Rightarrow> 'm world \<Rightarrow> real list \<times> 'm world" where
  "do_get_alarms self w =
     (fst (mi_get_alarms (opt_mi self) (machine w)),
      \<lparr>machine = snd (mi_get_alarms (opt_mi self) (machine w)), calls = calls w @ [Get_alarms]\<rparr>)"

definition do_init_corrector_vals ::
  "'m Optimizer \<Rightarrow> string list \<Rightarrow> 'm world \<Rightarrow> real list \<times> 'm world" where
  "do_init_corrector_vals self correctors w =
     (fst (mi_init_corrector_vals (opt_mi self) correctors (machine w)),
      \<lparr>machine = snd (mi_init_corrector_vals (opt_mi self) correctors (machine w)),
       calls = calls w @ [Init_corrector_vals correctors]\<rparr>)"

subsection \<open>The objective \<^verbatim>\<open>error_func\<close>\<close>

text \<open>
  The first loop of \<^verbatim>\<open>error_func(x)\<close>, \<^verbatim>\<open>for i in xrange(len(x))\<close>: it reads \<^verbatim>\<open>correctors[i]\<close>
  (\<^verbatim>\<open>IndexError\<close> when there is none) and returns at the first \<open>x[i]\<close> below \<open>limits[0]\<close> or
  above \<open>limits[1]\<close>. The result \<open>True\<close> says that the loop ran to its end.
\<close>

fun within_limits :: "(string \<Rightarrow> real \<times> real) \<Rightarrow> string list \<Rightarrow> real list \<Rightarrow> error + bool" where
  "within_limits get_limits correctors [] = Inr True"
| "within_limits get_limits [] (v # x) = Inl IndexError"
| "within_limits get_limits (c # correctors) (v # x) =
     (if v < fst (get_limits c) \<or> v > snd (get_limits c) then Inr False
      else within_limits get_limits correctors x)"

text \<open>
  The loop \<^verbatim>\<open>for i in xrange(len(correctors))\<close> with \<^verbatim>\<open>self.mi.set_value(correctors[i], v[i])\<close>;
  reading \<open>v[i]\<close> raises \<^verbatim>\<open>IndexError\<close> when \<open>v\<close> is too short, after the writes made so far.
  \<^verbatim>\<open>error_func\<close> runs it with the proposed vector, the end of \<^verbatim>\<open>max_sase\<close> with the baseline.
\<close>

fun set_all :: "'m Optimizer \<Rightarrow> string list \<Rightarrow> real list \<Rightarrow> 'm world \<Rightarrow> error option \<times> 'm world" where
  "set_all self [] v w = (None, w)"
| "set_all self (c # correctors) [] w = (Some IndexError, w)"
| "set_all self (c # correctors) (a # v) w = set_all self correctors v (do_set_value self c a w)"

text \<open>
  The end of \<^verbatim>\<open>error_func\<close>, from the alarm level \<^verbatim>\<open>alarm = np.max(self.mi.get_alarms())\<close> and
  the reading \<open>sase\<close>; \<^verbatim>\<open>pen_max = 100.0\<close>. \<^verbatim>\<open>np.max\<close> of an empty list raises \<^verbatim>\<open>ValueError\<close>.
\<close>

definition pen_max :: real where
  "pen_max = 100"

definition penalty :: "real \<Rightarrow> real \<Rightarrow> real" where
  "penalty alarm sase =
     (if alarm > 1 then pen_max
      else if alarm > 0.7 then alarm * 50
      else 0 + alarm - sase)"

definition error_func ::
  "'m Optimizer \<Rightarrow> string list \<Rightarrow> real list \<Rightarrow> 'm world \<Rightarrow> (error + real) \<times> 'm world" where
  "error_func self correctors x w =
     (case within_limits (opt_get_limits self) correctors x of
        Inl e \<Rightarrow> (Inl e, w)
      | Inr False \<Rightarrow> (Inr pen_max, w)
      | Inr True \<Rightarrow>
          (case set_all self correctors x w of
             (Some e, w1) \<Rightarrow> (Inl e, w1)
           | (None, w1) \<Rightarrow>
               let w2 = do_sleep self (opt_timeout self) w1;
                   (sase, w3) = do_get_sase self w2;
                   (alarms, w4) = do_get_alarms self w3
               in if alarms = [] then (Inl ValueError, w4)
                  else (Inr (penalty (Max (set alarms)) sase), w4)))"

subsection \<open>\<^verbatim>\<open>max_sase\<close>\<close>

text \<open>
  The minimizers \<^verbatim>\<open>fmin_cg\<close>, \<^verbatim>\<open>fmin\<close> and \<^verbatim>\<open>fmin_powell\<close> are scipy's: arbitrary functions
  here, which get the objective, the start vector and their options (\<open>gtol, epsilon, maxiter\<close>
  for \<^verbatim>\<open>fmin_cg\<close>; \<open>xtol, maxiter\<close> for the other two) and run on the world; an exception of
  the objective leaves them as an exception. \<^verbatim>\<open>max_sase\<close> does not use what they return.
\<close>

type_synonym 'm objective = "real list \<Rightarrow> 'm world \<Rightarrow> (error + real) \<times> 'm world"

record 'm minimizers =
  fmin_cg :: "'m objective \<Rightarrow> real list \<Rightarrow> real \<Rightarrow> real \<Rightarrow> real \<Rightarrow> 'm world \<Rightarrow> error option \<times> 'm world"
  fmin :: "'m objective \<Rightarrow> real list \<Rightarrow> real \<Rightarrow> real \<Rightarrow> 'm world \<Rightarrow> error option \<times> 'm world"
  fmin_powell :: "'m objective \<Rightarrow> real list \<Rightarrow> real \<Rightarrow> real \<Rightarrow> 'm world \<Rightarrow> error option \<times> 'm world"

text \<open>\<^verbatim>\<open>params[key]\<close> with the default of the \<^verbatim>\<open>except KeyError\<close> branch.\<close>

definition param_or :: "(string \<rightharpoonup> real) \<Rightarrow> string \<Rightarrow> real \<Rightarrow> real" where
  "param_or params key d = (case params key of Some v \<Rightarrow> v | None \<Rightarrow> d)"

text \<open>
  The dispatch on \<^verbatim>\<open>method\<close>: four \<^verbatim>\<open>if\<close> statements, of which at most one applies; the method
  \<^verbatim>\<open>'fancy_stuff_from'\<close> and every unknown method run nothing.
\<close>

definition run_minimizer ::
  "'m Optimizer \<Rightarrow> 'm minimizers \<Rightarrow> string list \<Rightarrow> string \<Rightarrow> (string \<rightharpoonup> real) \<Rightarrow> real list
     \<Rightarrow> 'm world \<Rightarrow> error option \<times> 'm world" where
  "run_minimizer self scipy correctors method params x w =
     (if method = ''cg'' then
        fmin_cg scipy (error_func self correctors) x
          (param_or params ''gtol'' (1 / 1000)) (param_or params ''epsilon'' (1 / 10))
          (param_or params ''maxiter'' (10 * real (length x))) w
      else if method = ''simplex'' then
        fmin scipy (error_func self correctors) x
          (param_or params ''xtol'' (1 / 1000))
          (param_or params ''maxiter'' (10 * real (length x))) w
      else if method = ''powell'' then
        fmin_powell scipy (error_func self correctors) x
          (param_or params ''xtol'' (1 / 1000))
          (param_or params ''maxiter'' (10 * real (length x))) w
      else (None, w))"

text \<open>
  \<^verbatim>\<open>max_sase(correctors, method, params)\<close>: the baseline reading \<^verbatim>\<open>sase_ref\<close>, the baseline
  settings \<^verbatim>\<open>x_init\<close>, the minimizer, the final reading \<^verbatim>\<open>sase_new\<close>, and the revert loop
  under \<^verbatim>\<open>if sase_new <= sase_ref\<close>. The minimizers copy their start vector, so \<^verbatim>\<open>x_init\<close> is
  the list that \<^verbatim>\<open>init_corrector_vals\<close> returned.
\<close>

definition max_sase ::
  "'m Optimizer \<Rightarrow> 'm minimizers \<Rightarrow> string list \<Rightarrow> string \<Rightarrow> (string \<rightharpoonup> real)
     \<Rightarrow> 'm world \<Rightarrow> error option \<times> 'm world" where
  "max_sase self scipy correctors method params w =
     (let (sase_ref, w1) = do_get_sase self w;
          (x, w2) = do_init_corrector_vals self correctors w1;
          x_init = x
      in case run_minimizer self scipy correctors method params x w2 of
           (Some e, w3) \<Rightarrow> (Some e, w3)
         | (None, w3) \<Rightarrow>
             let (sase_new, w4) = do_get_sase self w3
             in if sase_new \<le> sase_ref then set_all self correctors x_init w4
                else (None, w4))"

text \<open>
  The words of the specification: a component of the proposed vector is outside the limits
  of its actuator; the writes of a vector to the actuators, in order.
\<close>

definition out_of_limits :: "(string \<Rightarrow> real \<times> real) \<Rightarrow> string list \<Rightarrow> real list \<Rightarrow> bool" where
  "out_of_limits get_limits correctors x =
     list_ex (\<lambda>(c, v). v < fst (get_limits c) \<or> v > snd (get_limits c)) (zip correctors x)"

definition written :: "'m Optimizer \<Rightarrow> string list \<Rightarrow> real list \<Rightarrow> 'm world \<Rightarrow> 'm world" where
  "written self correctors v w = foldl (\<lambda>w (c, a). do_set_value self c a w) w (zip correctors v)"

subsection \<open>A machine for examples\<close>

text \<open>
  A deterministic machine: its state maps an actuator to its setting, the objective is
  \<open>10 - (h - 1)\<^sup>2 - (v - 2)\<^sup>2\<close> for the settings \<open>h\<close> and \<open>v\<close> of the actuators \<^verbatim>\<open>'h'\<close> and
  \<^verbatim>\<open>'v'\<close>, the alarm level is \<open>0\<close>. And a minimizer that evaluates the objective once, at a
  given point.
\<close>

definition quadratic_machine :: "(string \<Rightarrow> real) machine_interface" where
  "quadratic_machine =
     \<lparr>mi_get_alarms = (\<lambda>m. ([0], m)),
      mi_get_sase = (\<lambda>m. (10 - (m ''h'' - 1)\<^sup>2 - (m ''v'' - 2)\<^sup>2, m)),
      mi_set_value = (\<lambda>name val m. m(name := val)),
      mi_init_corrector_vals = (\<lambda>correctors m. (map m correctors, m))\<rparr>"

definition quadratic_optimizer :: "(string \<Rightarrow> real) Optimizer" where
  "quadratic_optimizer =
     \<lparr>opt_mi = quadratic_machine, opt_get_limits = (\<lambda>name. (- 1000, 1000)),
      opt_timeout = 1, opt_sleep = (\<lambda>t m. m)\<rparr>"

definition probe_at ::
  "real list \<Rightarrow> 'm objective \<Rightarrow> real list \<Rightarrow> real \<Rightarrow> real \<Rightarrow> 'm world \<Rightarrow> error option \<times> 'm world" where
  "probe_at point f x tol maxiter w =
     (case f point w of (Inl e, w') \<Rightarrow> (Some e, w') | (Inr r, w') \<Rightarrow> (None, w'))"

definition probing :: "real list \<Rightarrow> 'm minimizers" where
  "probing point =
     \<lparr>fmin_cg = (\<lambda>f x gtol epsilon. probe_at point f x gtol), fmin = probe_at point,
      fmin_powell = probe_at point\<rparr>"

section \<open>Current profile: \<^verbatim>\<open>s_to_cur\<close>\<close>

text \<open>
  Indexing an array of \<open>n\<close> entries with a Python integer: an index from \<open>-n\<close> to \<open>-1\<close> counts
  from the end, an index outside \<open>-n, ..., n - 1\<close> raises \<^verbatim>\<open>IndexError\<close>.
\<close>

definition py_index :: "nat \<Rightarrow> int \<Rightarrow> nat option" where
  "py_index n i =
     (if 0 \<le> i \<and> i < int n then Some (nat i)
      else if - int n \<le> i \<and> i < 0 then Some (nat (int n + i))
      else None)"

text \<open>
  The loop \<^verbatim>\<open>for k in range(len(A))\<close> of \<^verbatim>\<open>s_to_cur\<close>, over the pairs \<open>(I[k], xiA[k])\<close>: the
  index is lowered to \<open>N - 1\<close> when it is greater, then \<open>C[i]\<close> grows by \<open>xiA[k]\<close> and \<open>C[i+1]\<close>
  by \<open>1 - xiA[k]\<close>.
\<close>

fun deposit :: "int \<Rightarrow> real list \<Rightarrow> (int \<times> real) list \<Rightarrow> error + real list" where
  "deposit N C [] = Inr C"
| "deposit N C ((i0, xi) # rest) =
     (let i = (if i0 > N - 1 then N - 1 else i0)
      in case py_index (length C) (i + 0) of
           None \<Rightarrow> Inl IndexError
         | Some j0 \<Rightarrow>
             let C1 = C[j0 := C ! j0 + xi]
             in case py_index (length C1) (i + 1) of
                  None \<Rightarrow> Inl IndexError
                | Some j1 \<Rightarrow> deposit N (C1[j1 := C1 ! j1 + (1 - xi)]) rest)"

text \<open>
  \<^verbatim>\<open>np.convolve\<close>: the full discrete convolution, of length \<open>len(a) + len(b) - 1\<close>; an empty
  argument raises \<^verbatim>\<open>ValueError\<close>. \<^verbatim>\<open>convmode(A, B, mode)\<close>: the full convolution for
  \<open>mode = 2\<close>; for \<open>mode = 1\<close> its slice \<open>C1[i:n+i]\<close> with \<open>i = floor(len(B)/2)\<close> and \<open>n = len(A)\<close>;
  the empty list for any other mode.
\<close>

definition np_convolve :: "real list \<Rightarrow> real list \<Rightarrow> error + real list" where
  "np_convolve a b =
     (if a = [] \<or> b = [] then Inl ValueError
      else Inr (map (\<lambda>j. sum_list (map (\<lambda>k. a ! k * b ! (j - k))
                                   (filter (\<lambda>k. k \<le> j \<and> j - k < length b) [0..<length a])))
                    [0..<length a + length b - 1]))"

definition convmode :: "real list \<Rightarrow> real list \<Rightarrow> int \<Rightarrow> error + real list" where
  "convmode A B mode =
     (if mode = 2 then np_convolve A B
      else if mode = 1 then
        (let i = length B div 2;
             n = length A
         in case np_convolve A B of
              Inl e \<Rightarrow> Inl e
            | Inr C1 \<Rightarrow> Inr (drop i (take (n + i) C1)))
      else Inr [])"

text \<open>
  \<^verbatim>\<open>s_to_cur(A, sigma, q0, v)\<close> on an array \<open>A\<close> of finite numbers. The result is the array
  \<open>B\<close> of shape \<open>(N+1, 2)\<close>, given by its two columns: the grid \<open>B[:, 0]\<close> and the profile
  \<open>B[:, 1]\<close>.

  \<^verbatim>\<open>np.min\<close> of an empty array raises \<^verbatim>\<open>ValueError\<close>. With \<open>sigma = 0\<close> the quotient
  \<open>(b - a)/s\<close> is \<^verbatim>\<open>nan\<close> or \<^verbatim>\<open>inf\<close>, and \<^verbatim>\<open>int\<close> of it raises \<^verbatim>\<open>ValueError\<close> or
  \<^verbatim>\<open>OverflowError\<close>. With \<open>N = 0\<close> the step \<open>(b - a)/N\<close> is not a finite number and
  \<^verbatim>\<open>np.arange\<close> raises \<^verbatim>\<open>ValueError\<close>; with \<open>N + 1 < 0\<close> \<^verbatim>\<open>np.zeros\<close> raises it. Otherwise
  \<^verbatim>\<open>np.arange(0, (N+0.5)*s, s)\<close> has the \<open>N + 1\<close> entries \<open>0, s, ..., N*s\<close>. The last division,
  for \<^verbatim>\<open>koef\<close>, is numpy's.
\<close>

definition s_to_cur :: "real list \<Rightarrow> real \<Rightarrow> real \<Rightarrow> real \<Rightarrow> error + real list \<times> float list" where
  "s_to_cur A sigma q0 v =
     (if A = [] then Inl ValueError
      else
        let Nsigma = 3;
            a = Min (set A) - Nsigma * sigma;
            b = Max (set A) + Nsigma * sigma;
            s = 0.25 * sigma
        in if s = 0 then (if b - a = 0 then Inl ValueError else Inl OverflowError)
           else
             let N = \<lceil>(b - a) / s\<rceil>
             in if N = 0 \<or> N + 1 < 0 then Inl ValueError
                else
                  let s = (b - a) / real_of_int N;
                      B0 = map (\<lambda>k. real_of_int k * s + a) [0..N];
                      C = replicate (nat (N + 1)) 0;
                      N = int (length B0);
                      cA = map (\<lambda>x. (x - a) / s) A;
                      I = map floor cA;
                      xiA = map2 (\<lambda>i c. 1 + real_of_int i - c) I cA
                  in case deposit N C (zip I xiA) of
                       Inl e \<Rightarrow> Inl e
                     | Inr C \<Rightarrow>
                         let K = \<lfloor>Nsigma * sigma / s + 0.5\<rfloor>;
                             G = map (\<lambda>j. exp (- 0.5 * (real_of_int j * s / sigma)\<^sup>2)) [- K..K];
                             G = map (\<lambda>g. g / sum_list G) G
                         in case convmode C G 1 of
                              Inl e \<Rightarrow> Inl e
                            | Inr B1 \<Rightarrow>
                                let koef = fdiv (Some (q0 * v)) (Some (s * sum_list B1))
                                in Inr (B0, map (\<lambda>h. fmul koef (Some h)) B1))"

text \<open>The bin width of a grid with equal steps, as the specification uses it.\<close>

definition bin_width :: "real list \<Rightarrow> real" where
  "bin_width grid = grid ! 1 - grid ! 0"

section \<open>Properties of the boxcar filter\<close>

lemma foldl_add_sum_list:
  "foldl (\<lambda>s j. s + f j) a js = a + sum_list (map f js)"
  for a :: real
  by (induction js arbitrary: a) simp_all

lemma filter_interval_upt:
  "filter (\<lambda>j. a \<le> j \<and> j \<le> b) [0..<n] = [a..<min n (Suc b)]"
  by (induction n) (auto simp: min_def not_less_eq_eq)

lemma map_nat_upto: "0 \<le> a \<Longrightarrow> map nat [a..b] = [nat a..<nat (b + 1)]"
proof (induction a b rule: upto.induct)
  case (1 i j)
  show ?case
  proof (cases "i \<le> j")
    case True
    then have "[i..j] = i # [i + 1..j]" by (simp add: upto_rec1)
    moreover have "[nat i..<nat (j + 1)] = nat i # [Suc (nat i)..<nat (j + 1)]"
      using True 1(2) by (intro upt_conv_Cons) linarith
    moreover have "nat (i + 1) = Suc (nat i)" using 1(2) by simp
    ultimately show ?thesis using 1 True by simp
  next
    case False
    then show ?thesis using 1(2) by simp
  qed
qed

lemma upto_map_int: "[0..int n - 1] = map int [0..<n]"
proof -
  have "map (int \<circ> nat) [0..int n - 1] = [0..int n - 1]"
    by (rule map_idI) simp
  then have "map int (map nat [0..int n - 1]) = [0..int n - 1]"
    by simp
  moreover have "map nat [0..int n - 1] = [0..<n]"
    using map_nat_upto [of 0 "int n - 1"] by simp
  ultimately show ?thesis by simp
qed

lemma window_indices:
  assumes "0 \<le> p" "i < n"
  shows "map nat (case filter_window (int n) p (int i) of (i0, i1) \<Rightarrow> [i0..i1])
         = boxcar_indices n p i"
proof -
  let ?i0 = "max 0 (int i - p)" and ?i1 = "min (int n - 1) (int i + p)"
  have fw: "filter_window (int n) p (int i) = (?i0, ?i1)"
    by (simp add: filter_window_def Let_def max_def min_def)
  have "map nat [?i0..?i1] = [nat ?i0..<nat (?i1 + 1)]"
    by (rule map_nat_upto) simp
  moreover have "boxcar_indices n p i = [nat ?i0..<nat (?i1 + 1)]"
  proof -
    have "boxcar_indices n p i = filter (\<lambda>j. nat (int i - p) \<le> j \<and> j \<le> nat (int i + p)) [0..<n]"
      unfolding boxcar_indices_def using assms by (intro filter_cong) auto
    also have "\<dots> = [nat (int i - p)..<min n (Suc (nat (int i + p)))]"
      by (rule filter_interval_upt)
    also have "\<dots> = [nat ?i0..<nat (?i1 + 1)]"
    proof -
      have "nat ?i0 = nat (int i - p)" by (simp add: max_def)
      moreover have "nat (?i1 + 1) = min n (Suc (nat (int i + p)))"
        using assms by (simp add: min_def) linarith
      ultimately show ?thesis by simp
    qed
    finally show ?thesis .
  qed
  ultimately show ?thesis by (simp add: fw)
qed

lemma window_length:
  assumes "0 \<le> p" "i < n"
  shows "(case filter_window (int n) p (int i) of (i0, i1) \<Rightarrow> i1 - i0 + 1)
         = int (length (boxcar_indices n p i))"
proof -
  let ?i0 = "max 0 (int i - p)" and ?i1 = "min (int n - 1) (int i + p)"
  have fw: "filter_window (int n) p (int i) = (?i0, ?i1)"
    by (simp add: filter_window_def Let_def max_def min_def)
  have "length (map nat [?i0..?i1]) = length (boxcar_indices n p i)"
    using window_indices [OF assms] by (simp add: fw)
  moreover have "?i0 \<le> ?i1" using assms by simp
  ultimately show ?thesis using assms by (simp add: fw)
qed

lemma filter_pass_boxcar:
  assumes "0 \<le> p"
  shows "filter_pass p x = boxcar_pass p x"
proof -
  let ?n = "length x"
  have "filter_pass p x = map (\<lambda>i. case filter_window (int ?n) p (int i) of
                     (i0, i1) \<Rightarrow>
                       foldl (\<lambda>s j. s + x ! nat j) 0 [i0..i1] / real_of_int (i1 - i0 + 1)) [0..<?n]"
    by (simp add: filter_pass_def Let_def upto_map_int comp_def)
  also have "\<dots> = boxcar_pass p x"
    unfolding boxcar_pass_def
  proof (rule map_cong [OF refl])
    fix i assume "i \<in> set [0..<?n]"
    then have i: "i < ?n" by simp
    obtain i0 i1 where fw: "filter_window (int ?n) p (int i) = (i0, i1)"
      by (cases "filter_window (int ?n) p (int i)")
    have a: "map nat [i0..i1] = boxcar_indices ?n p i"
      using window_indices [OF assms i] by (simp add: fw)
    have "i1 - i0 + 1 = int (length (boxcar_indices ?n p i))"
      using window_length [OF assms i] by (simp add: fw)
    then have b: "real_of_int (i1 - i0 + 1) = real (length (boxcar_indices ?n p i))"
      by (simp only: of_int_of_nat_eq)
    have "foldl (\<lambda>s j. s + x ! nat j) 0 [i0..i1] = sum_list (map (\<lambda>j. x ! j) (map nat [i0..i1]))"
      by (simp add: foldl_add_sum_list comp_def)
    then show "(case filter_window (int ?n) p (int i) of
                     (i0, i1) \<Rightarrow>
                       foldl (\<lambda>s j. s + x ! nat j) 0 [i0..i1] / real_of_int (i1 - i0 + 1))
       = sum_list (map (\<lambda>j. x ! j) (boxcar_indices ?n p i)) / real (length (boxcar_indices ?n p i))"
      by (simp only: fw prod.case a b)
  qed
  finally show ?thesis .
qed

lemma sum_list_between:
  fixes f :: "'a \<Rightarrow> real"
  assumes "\<forall>j\<in>set js. lo \<le> f j \<and> f j \<le> hi"
  shows "lo * real (length js) \<le> sum_list (map f js) \<and> sum_list (map f js) \<le> hi * real (length js)"
  using assms by (induction js) (auto simp: algebra_simps)

lemma average_between:
  fixes f :: "'a \<Rightarrow> real"
  assumes "js \<noteq> []" and "\<forall>j\<in>set js. lo \<le> f j \<and> f j \<le> hi"
  shows "lo \<le> sum_list (map f js) / real (length js) \<and> sum_list (map f js) / real (length js) \<le> hi"
proof -
  have "0 < real (length js)" using assms(1) by simp
  then show ?thesis
    using sum_list_between [OF assms(2)] by (simp add: pos_le_divide_eq pos_divide_le_eq)
qed

lemma boxcar_indices_props:
  assumes "0 \<le> p" "i < n"
  shows "boxcar_indices n p i \<noteq> []" and "\<forall>j\<in>set (boxcar_indices n p i). j < n"
proof -
  have "i \<in> set (boxcar_indices n p i)" using assms by (simp add: boxcar_indices_def)
  then show "boxcar_indices n p i \<noteq> []" by auto
  show "\<forall>j\<in>set (boxcar_indices n p i). j < n" by (simp add: boxcar_indices_def)
qed

lemma length_boxcar_pass: "length (boxcar_pass p x) = length x"
  by (simp add: boxcar_pass_def)

lemma boxcar_pass_between:
  assumes "0 \<le> p" and "\<forall>v\<in>set x. lo \<le> v \<and> v \<le> hi"
  shows "\<forall>v\<in>set (boxcar_pass p x). lo \<le> v \<and> v \<le> hi"
proof
  fix v assume "v \<in> set (boxcar_pass p x)"
  then obtain i where i: "i < length x"
    and v: "v = sum_list (map (\<lambda>j. x ! j) (boxcar_indices (length x) p i))
              / real (length (boxcar_indices (length x) p i))"
    by (auto simp: boxcar_pass_def)
  have "\<forall>j\<in>set (boxcar_indices (length x) p i). lo \<le> x ! j \<and> x ! j \<le> hi"
    using boxcar_indices_props(2) [OF assms(1) i] assms(2) by simp
  from average_between [OF boxcar_indices_props(1) [OF assms(1) i] this]
  show "lo \<le> v \<and> v \<le> hi" by (simp add: v)
qed

lemma boxcar_funpow_between:
  assumes "0 \<le> p" and "\<forall>v\<in>set x. lo \<le> v \<and> v \<le> hi"
  shows "\<forall>v\<in>set ((boxcar_pass p ^^ k) x). lo \<le> v \<and> v \<le> hi"
proof (induction k)
  case 0
  show ?case using assms(2) by simp
next
  case (Suc k)
  have "(boxcar_pass p ^^ Suc k) x = boxcar_pass p ((boxcar_pass p ^^ k) x)" by simp
  then show ?case using boxcar_pass_between [OF assms(1) Suc] by (simp only:)
qed

lemma length_boxcar_funpow: "length ((boxcar_pass p ^^ k) x) = length x"
  by (induction k) (simp_all add: length_boxcar_pass)

lemma filter_loop_boxcar:
  "0 \<le> p \<Longrightarrow> filter_loop k p x = (boxcar_pass p ^^ k) x"
proof (induction k arbitrary: x)
  case 0
  show ?case by simp
next
  case (Suc k)
  have "filter_loop (Suc k) p x = (boxcar_pass p ^^ k) (boxcar_pass p x)"
    using Suc by (simp add: filter_pass_boxcar)
  also have "\<dots> = (boxcar_pass p ^^ Suc k) x"
    by (simp only: funpow_Suc_right o_apply)
  finally show ?case .
qed

text \<open>
  Claim C7. With iteration count \<open>0\<close> \<^verbatim>\<open>simple_filter\<close> returns its input unchanged. With an
  iteration count \<open>K > 0\<close> and a half-width \<open>p \<ge> 0\<close> it returns normally; the result is the
  \<open>K\<close>-fold boxcar pass of the input, each pass replacing every sample by the unweighted
  average of the samples of the array it reads whose index lies in \<open>[i - p, i + p]\<close> and
  inside the array; the result is as long as the input, and every element of it lies between
  the least and the greatest input sample.
\<close>

theorem simple_filter_boxcar:
  "simple_filter x p 0 = Inr x \<and>
   (0 < K \<and> 0 \<le> p \<longrightarrow>
      (\<exists>y. simple_filter x p K = Inr y \<and> y = (boxcar_pass p ^^ nat K) x \<and>
           length y = length x \<and>
           (\<forall>v\<in>set y. Min (set x) \<le> v \<and> v \<le> Max (set x))))"
proof (intro conjI impI)
  show "simple_filter x p 0 = Inr x" by (simp add: simple_filter_def)
next
  assume h: "0 < K \<and> 0 \<le> p"
  let ?y = "(boxcar_pass p ^^ nat K) x"
  have "simple_filter x p K = Inr ?y"
    using h by (simp add: simple_filter_def filter_loop_boxcar)
  moreover have "length ?y = length x" by (rule length_boxcar_funpow)
  moreover have "\<forall>v\<in>set ?y. Min (set x) \<le> v \<and> v \<le> Max (set x)"
    by (rule boxcar_funpow_between) (use h in simp_all)
  ultimately show "\<exists>y. simple_filter x p K = Inr y \<and> y = ?y \<and> length y = length x \<and>
           (\<forall>v\<in>set y. Min (set x) \<le> v \<and> v \<le> Max (set x))"
    by blast
qed

theorem simple_filter_boxcar_witness:
  "simple_filter [1, 2, 6] 1 0 = Inr [1, 2, 6] \<and> (0::int) < 2 \<and> (0::int) \<le> 1 \<and>
   simple_filter [1, 2, 6] 1 2 = Inr [9 / 4, 17 / 6, 7 / 2] \<and>
   list_all (\<lambda>v. 1 \<le> v \<and> v \<le> 6) [9 / 4, 17 / 6, 7 / 2 :: real]"
proof -
  have e: "(boxcar_pass 1 ^^ 2) [1, 2, 6] = [9 / 4, 17 / 6, 7 / 2]"
    by code_simp
  show ?thesis
    using simple_filter_boxcar [of "[1, 2, 6]" 1 2] by (simp add: e)
qed

section \<open>Tail trimming and the charge array\<close>

lemma six_rows:
  assumes "length (rp :: 'a list) = 6"
  obtains r0 r1 r2 r3 r4 r5 where "rp = [r0, r1, r2, r3, r4, r5]"
proof -
  from assms have "length rp = Suc (Suc (Suc (Suc (Suc (Suc 0)))))" by simp
  then show ?thesis using that by (auto simp: length_Suc_conv)
qed
















text \<open>
  \<^verbatim>\<open>list2array\<close> does not touch \<^verbatim>\<open>q_array\<close> either: the array it returns has one column per
  particle of the list and the charges it had before.
\<close>

lemma setitem_fold_q_array:
  "q_array (foldl (\<lambda>a (i, p). ParticleArray_setitem a i p) a ps) = q_array a"
  by (induction ps arbitrary: a) (auto simp: ParticleArray_setitem_def)

lemma setitem_fold_shape:
  "has_shape (rparticles a) n \<Longrightarrow>
     has_shape (rparticles (foldl (\<lambda>a (i, p). ParticleArray_setitem a i p) a ps)) n"
proof (induction ps arbitrary: a)
  case Nil
  then show ?case by simp
next
  case (Cons q ps)
  obtain i p where q: "q = (i, p)" by (cases q)
  obtain r0 r1 r2 r3 r4 r5 where rp: "rparticles a = [r0, r1, r2, r3, r4, r5]"
    using Cons.prems six_rows unfolding has_shape_def by blast
  have "has_shape (rparticles (ParticleArray_setitem a i p)) n"
    using Cons.prems by (simp add: ParticleArray_setitem_def has_shape_def rp)
  from Cons.IH [OF this] show ?case by (simp add: q)
qed

lemma list2array_weights:
  assumes "list2array self p_list = Inr a'"
  shows "q_array a' = q_array self \<and> has_shape (rparticles a') (length p_list)"
proof -
  let ?a0 = "self\<lparr>rparticles := replicate 6 (replicate (length p_list) 0)\<rparr>"
  let ?a1 = "foldl (\<lambda>a (i, p). ParticleArray_setitem a i p) ?a0 (zip [0..<length p_list] p_list)"
  obtain p0 ps where "p_list = p0 # ps" using assms by (cases p_list) (simp_all add: list2array_def)
  then have a': "a' = ?a1\<lparr>ref_s := part_s p0, ref_E := Some (part_E p0)\<rparr>"
    using assms by (simp add: list2array_def Let_def)
  have "has_shape (rparticles ?a0) (length p_list)"
    by (simp add: has_shape_def numeral_eq_Suc)
  then have "has_shape (rparticles ?a1) (length p_list)" by (rule setitem_fold_shape)
  moreover have "q_array ?a1 = q_array self"
    by (simp add: setitem_fold_q_array)
  ultimately show ?thesis by (simp add: a')
qed

lemma list2array_example:
  "list2array (ParticleArray_init 0)
     [\<lparr>part_x = 1, part_y = 2, part_px = 3, part_py = 4, part_s = 5, part_p = 6, part_tau = 7,
       part_E = 8\<rparr>]
   = Inr \<lparr>rparticles = [[1], [3], [2], [4], [7], [6]], q_array = [], ref_s = 5, ref_E = Some 8\<rparr>"
  by (simp add: list2array_def ParticleArray_init_def ParticleArray_setitem_def numeral_eq_Suc)

section \<open>Re-centering on the first particle\<close>

lemma first_of_nonempty: "xs \<noteq> [] \<Longrightarrow> first_of xs = Inr (xs ! 0)"
  by (cases xs) (simp_all add: first_of_def)

text \<open>
  Claim C10. On a particle array of shape \<open>(6, n)\<close> with \<open>n > 0\<close>,
  \<^verbatim>\<open>recalculate_ref_particle\<close> returns normally. In the array it returns the rows
  \<open>x, px, y, py\<close> and \<^verbatim>\<open>q_array\<close> are as before, every \<open>tau\<close> and every \<open>p\<close> is shifted by the old
  value of particle \<open>0\<close>, so that particle \<open>0\<close> has \<open>tau = 0\<close> and \<open>p = 0\<close>; the reference position
  is \<open>s - tau_old[0]\<close>; the reference energy is \<open>E + p_old[0] * sqrt(E^2 / m_e^2 - 1) * m_e\<close>
  where that is a finite number (\<open>m_e \<noteq> 0\<close>, \<open>E\<close> finite, radicand not negative) and not a
  number otherwise.
\<close>

theorem recalculate_ref_particle_recenters:
  assumes "has_shape (rparticles a) n" and "0 < n"
  shows "\<exists>a'. recalculate_ref_particle m_e a = Inr a'
     \<and> rparticles a' =
         [ParticleArray_x a, ParticleArray_px a, ParticleArray_y a, ParticleArray_py a,
          map (\<lambda>v. v - ParticleArray_tau a ! 0) (ParticleArray_tau a),
          map (\<lambda>v. v - ParticleArray_p a ! 0) (ParticleArray_p a)]
     \<and> ParticleArray_tau a' ! 0 = 0 \<and> ParticleArray_p a' ! 0 = 0
     \<and> q_array a' = q_array a
     \<and> ref_s a' = ref_s a - ParticleArray_tau a ! 0
     \<and> ref_E a' =
         (case ref_E a of
            None \<Rightarrow> None
          | Some E \<Rightarrow>
              if m_e \<noteq> 0 \<and> 0 \<le> E\<^sup>2 / m_e\<^sup>2 - 1
              then Some (E + ParticleArray_p a ! 0 * sqrt (E\<^sup>2 / m_e\<^sup>2 - 1) * m_e)
              else None)"
proof -
  obtain r0 r1 r2 r3 r4 r5 where rp: "rparticles a = [r0, r1, r2, r3, r4, r5]"
    using assms(1) six_rows unfolding has_shape_def by blast
  have len: "length r4 = n" "length r5 = n"
    using assms(1) by (simp_all add: has_shape_def rp)
  then have ne: "r4 \<noteq> []" "r5 \<noteq> []" using assms(2) by auto
  have acc: "ParticleArray_x a = r0" "ParticleArray_px a = r1" "ParticleArray_y a = r2"
    "ParticleArray_py a = r3" "ParticleArray_tau a = r4" "ParticleArray_p a = r5"
    by (simp_all add: ParticleArray_x_def ParticleArray_px_def ParticleArray_y_def
        ParticleArray_py_def ParticleArray_tau_def ParticleArray_p_def rp)
  let ?E' = "fadd (fmul (Some (r5 ! 0))
                (fmul (fsqrt (fsub (fdiv (fmul (ref_E a) (ref_E a)) (Some (m_e * m_e))) (Some 1)))
                      (Some m_e))) (ref_E a)"
  let ?a' = "a\<lparr>rparticles := [r0, r1, r2, r3, map (\<lambda>v. v - r4 ! 0) r4, map (\<lambda>v. v - r5 ! 0) r5],
               ref_E := ?E', ref_s := ref_s a - r4 ! 0\<rparr>"
  have run: "recalculate_ref_particle m_e a = Inr ?a'"
    using ne
    by (simp add: recalculate_ref_particle_def Let_def acc first_of_nonempty rp
        ParticleArray_tau_def ParticleArray_p_def)
  have E': "?E' = (case ref_E a of
            None \<Rightarrow> None
          | Some E \<Rightarrow>
              if m_e \<noteq> 0 \<and> 0 \<le> E\<^sup>2 / m_e\<^sup>2 - 1
              then Some (E + r5 ! 0 * sqrt (E\<^sup>2 / m_e\<^sup>2 - 1) * m_e)
              else None)"
    by (simp add: fadd_def fmul_def fsqrt_def fsub_def fdiv_def power2_eq_square
        split: option.splits)
  have "ParticleArray_tau ?a' ! 0 = 0" "ParticleArray_p ?a' ! 0 = 0"
    using ne by (simp_all add: ParticleArray_tau_def ParticleArray_p_def)
  with run E' show ?thesis unfolding acc by simp
qed

lemma sqrt_16_9: "sqrt (16 / 9) = 4 / 3"
  by (rule real_sqrt_unique) (simp_all add: power2_eq_square)

theorem recalculate_ref_particle_recenters_witness:
  "has_shape [[2, 0], [0, 0], [0, 0], [0, 0], [1, 3], [2, 5]] 2 \<and> (0::nat) < 2 \<and>
   recalculate_ref_particle 3
     \<lparr>rparticles = [[2, 0], [0, 0], [0, 0], [0, 0], [1, 3], [2, 5]],
      q_array = [1, 1], ref_s = 7, ref_E = Some 5\<rparr>
   = Inr \<lparr>rparticles = [[2, 0], [0, 0], [0, 0], [0, 0], [0, 2], [0, 3]],
      q_array = [1, 1], ref_s = 6, ref_E = Some 13\<rparr>"
proof -
  let ?a = "\<lparr>rparticles = [[2, 0], [0, 0], [0, 0], [0, 0], [1, 3], [2, 5]],
      q_array = [1, 1], ref_s = 7, ref_E = Some (5::real)\<rparr>"
  have h: "has_shape (rparticles ?a) 2" by (simp add: has_shape_def)
  have r: "(5::real)\<^sup>2 / 3\<^sup>2 - 1 = 16 / 9" by (simp add: power2_eq_square)
  show ?thesis
    using recalculate_ref_particle_recenters [OF h, of 3] h
    by (auto simp: ParticleArray_x_def ParticleArray_px_def ParticleArray_y_def
        ParticleArray_py_def ParticleArray_tau_def ParticleArray_p_def r sqrt_16_9)
qed

section \<open>Second moments and the beam envelope\<close>

lemma float_simps:
  "fadd (Some u) (Some v) = Some (u + v)"
  "fsub (Some u) (Some v) = Some (u - v)"
  "fmul (Some u) (Some v) = Some (u * v)"
  "fdiv (Some u) (Some v) = (if v = 0 then None else Some (u / v))"
  "fneg (Some u) = Some (- u)"
  "fsqrt (Some u) = (if u < 0 then None else Some (sqrt u))"
  by (simp_all add: fadd_def fsub_def fmul_def fdiv_def fneg_def fsqrt_def)

lemma float_None:
  "fadd None b = None" "fadd a None = None"
  "fsub None b = None" "fsub a None = None"
  "fmul None b = None" "fmul a None = None"
  "fdiv None b = None" "fdiv a None = None"
  "fneg None = None" "fsqrt None = None"
  by (simp_all add: fadd_def fsub_def fmul_def fdiv_def fneg_def fsqrt_def split: option.splits)

lemma foldl_fadd_Some: "foldl fadd (Some a) (map Some xs) = Some (a + sum_list xs)"
  by (induction xs arbitrary: a) (simp_all add: float_simps add.assoc)

lemma np_sum_Some: "np_sum (map Some xs) = Some (sum_list xs)"
  by (simp add: np_sum_def foldl_fadd_Some)

lemma np_sum_Some_comp: "np_sum (map (Some \<circ> f) xs) = Some (sum_list (map f xs))"
  using np_sum_Some [of "map f xs"] by simp

lemma np_mean_Some:
  "np_mean (map Some xs) = (if xs = [] then None else Some (sample_mean xs))"
  by (simp add: np_mean_def np_sum_Some float_simps sample_mean_def)

lemma map2_fmul_fsub:
  "map2 fmul (map (\<lambda>v. fsub (Some v) (Some a)) xs) (map (\<lambda>v. fsub (Some v) (Some b)) ys)
   = map Some (map2 (\<lambda>u v. (u - a) * (v - b)) xs ys)"
  by (simp add: zip_map_map float_simps split_def comp_def)

text \<open>
  In exact arithmetic \<^verbatim>\<open>moments\<close> (with the default \<open>cut = 0\<close>) returns, for two nonempty arrays
  of one length, the two means, the three population (\<open>1/n\<close>) centered second moments, and
  the square root of \<open>var_x * var_y - cov_xy\<^sup>2\<close> of these moments.
\<close>

theorem moments_population:
  assumes "x \<noteq> []" and "length x = length y"
  shows "moments x y 0 =
     Inr (Some (sample_mean x), Some (sample_mean y),
          Some (centered_moment x x), Some (centered_moment x y), Some (centered_moment y y),
          (if centered_moment x x * centered_moment y y - (centered_moment x y)\<^sup>2 < 0
           then None
           else Some (sqrt (centered_moment x x * centered_moment y y - (centered_moment x y)\<^sup>2))))"
proof -
  have y: "y \<noteq> []" using assms by (cases y) simp_all
  have n: "real (length x) \<noteq> 0" "real (length y) \<noteq> 0" using assms(1) y by simp_all
  let ?xc = "map (\<lambda>v. fsub (Some v) (Some (sample_mean x))) x"
  let ?yc = "map (\<lambda>v. fsub (Some v) (Some (sample_mean y))) y"
  have t: "np_times ?xc ?yc = Inr (map2 fmul ?xc ?yc)"
    using assms(2) by (simp add: np_times_def)
  have mxx: "fdiv (np_sum (map2 fmul ?xc ?xc)) (Some (real (length x))) = Some (centered_moment x x)"
    using n by (subst map2_fmul_fsub) (simp add: np_sum_Some_comp float_simps centered_moment_def)
  have myy: "fdiv (np_sum (map2 fmul ?yc ?yc)) (Some (real (length x))) = Some (centered_moment y y)"
    using n assms(2) by (subst map2_fmul_fsub) (simp add: np_sum_Some_comp float_simps centered_moment_def)
  have mxy: "fdiv (np_sum (map2 fmul ?xc ?yc)) (Some (real (length x))) = Some (centered_moment x y)"
    using n by (subst map2_fmul_fsub) (simp add: np_sum_Some_comp float_simps centered_moment_def)
  have "moments x y 0 =
      (let emitt = fsqrt (fsub (fmul (Some (centered_moment x x)) (Some (centered_moment y y)))
                     (fmul (Some (centered_moment x y)) (Some (centered_moment x y))))
       in if (0::real) > 0 then Inl TypeError
          else Inr (Some (sample_mean x), Some (sample_mean y), Some (centered_moment x x),
                    Some (centered_moment x y), Some (centered_moment y y), emitt))"
    by (simp only: moments_def Let_def np_mean_Some assms(1) y if_False t mxx myy mxy sum.case)
  then show ?thesis
    by (simp add: float_simps power2_eq_square)
qed

lemma sqrt_quarter: "sqrt (1 / 4) = 1 / 2"
  by (rule real_sqrt_unique) (simp_all add: power2_eq_square)

theorem moments_population_witness:
  "[1, - 1, 0, 0] \<noteq> ([] :: real list) \<and>
   length [1, - 1, 0, 0 :: real] = length [0, 0, 1, - 1 :: real] \<and>
   moments [1, - 1, 0, 0] [0, 0, 1, - 1] 0
     = Inr (Some 0, Some 0, Some (1 / 2), Some 0, Some (1 / 2), Some (1 / 2))"
  using moments_population [of "[1, - 1, 0, 0]" "[0, 0, 1, - 1]"]
  by (simp add: sample_mean_def centered_moment_def sqrt_quarter)

subsection \<open>\<^verbatim>\<open>moments\<close> in float64 arithmetic\<close>

lemma r_simps:
  "r_sub ar (Some u) (Some v) = ar_round ar (u - v)"
  "r_mul ar (Some u) (Some v) = ar_round ar (u * v)"
  "r_div ar (Some u) (Some v) = (if v = 0 then None else ar_round ar (u / v))"
  "r_sqrt ar (Some u) = (if u < 0 then None else ar_round ar (sqrt u))"
  by (simp_all add: r_sub_def r_mul_def r_div_def r_sqrt_def)

lemma r_exact:
  "r_sub exact = fsub" "r_mul exact = fmul" "r_div exact = fdiv"
  "r_sqrt exact = fsqrt" "ar_sum exact = np_sum"
  by (simp_all add: fun_eq_iff exact_def r_sub_def r_mul_def r_div_def r_sqrt_def
      fsub_def fmul_def fdiv_def fsqrt_def split: option.splits)

text \<open>
  In exact arithmetic \<open>moments_in\<close> is \<open>moments\<close>.
\<close>

lemma moments_in_exact: "moments_in exact x y c = moments x y c"
  unfolding moments_in_def moments_def np_times_in_def np_times_def r_exact np_mean_def Let_def
  by simp

text \<open>
  In exact arithmetic the quantities are the population moments of the samples.
\<close>

lemma exact_population_moments:
  assumes "x \<noteq> []" and "length x = length y"
  shows "mean_in exact x = Some (sample_mean x)"
    and "mean_in exact y = Some (sample_mean y)"
    and "centered_moment_in exact x x = Some (centered_moment x x)"
    and "centered_moment_in exact x y = Some (centered_moment x y)"
    and "centered_moment_in exact y y = Some (centered_moment y y)"
    and "radicand_in exact x y
           = Some (centered_moment x x * centered_moment y y - (centered_moment x y)\<^sup>2)"
proof -
  have y: "y \<noteq> []" using assms by (cases y) simp_all
  have n: "real (length x) \<noteq> 0" "real (length y) \<noteq> 0" using assms(1) y by simp_all
  show mx: "mean_in exact x = Some (sample_mean x)"
    using assms(1) by (simp add: mean_in_def r_exact np_mean_Some [unfolded np_mean_def, simplified])
  show my: "mean_in exact y = Some (sample_mean y)"
    using y by (simp add: mean_in_def r_exact np_mean_Some [unfolded np_mean_def, simplified])
  have c: "centered_moment_in exact u v = Some (centered_moment u v)"
    if "mean_in exact u = Some (sample_mean u)" "mean_in exact v = Some (sample_mean v)"
       "u \<noteq> []" for u v
  proof -
    have "map2 (\<lambda>a b. fmul (fsub (Some a) (Some (sample_mean u))) (fsub (Some b) (Some (sample_mean v)))) u v
          = map (Some \<circ> (\<lambda>(a, b). (a - sample_mean u) * (b - sample_mean v))) (zip u v)"
      by (simp add: float_simps split_def)
    moreover have "np_sum (map (\<lambda>p. Some (f p)) l) = Some (sum_list (map f l))"
      for f :: "real \<times> real \<Rightarrow> real" and l
      using np_sum_Some_comp [of f l] by (simp add: comp_def)
    ultimately show ?thesis
      using that(3) unfolding centered_moment_in_def that(1,2) r_exact
      by (simp add: float_simps centered_moment_def split_def)
  qed
  show xx: "centered_moment_in exact x x = Some (centered_moment x x)"
    using c [OF mx mx assms(1)] .
  show xy: "centered_moment_in exact x y = Some (centered_moment x y)"
    using c [OF mx my assms(1)] .
  show yy: "centered_moment_in exact y y = Some (centered_moment y y)"
    using c [OF my my y] .
  show "radicand_in exact x y
           = Some (centered_moment x x * centered_moment y y - (centered_moment x y)\<^sup>2)"
    unfolding radicand_in_def xx xy yy r_exact by (simp add: float_simps power2_eq_square)
qed

lemma map2_r_mul_r_sub:
  "map2 (r_mul ar) (map (\<lambda>v. r_sub ar (Some v) a) xs) (map (\<lambda>v. r_sub ar (Some v) b) ys)
   = map2 (\<lambda>u v. r_mul ar (r_sub ar (Some u) a) (r_sub ar (Some v) b)) xs ys"
  by (simp add: zip_map_map split_def comp_def)

text \<open>
  Claim C4. For two arrays of one length, nonempty ones among them, \<^verbatim>\<open>moments\<close> (with the
  default \<open>cut = 0\<close>) does not raise, in whatever arithmetic: it returns the two means, the
  three population (\<open>1/n\<close>) centered second moments, and as emittance the square root of the
  radicand \<open>var_x * var_y - cov_xy\<^sup>2\<close> computed from these moments; when the radicand is
  negative, or is not a number, the emittance is not a number.
\<close>

theorem moments_emittance:
  assumes "length x = length y"
  shows "moments_in ar x y 0 =
     Inr (mean_in ar x, mean_in ar y,
          centered_moment_in ar x x, centered_moment_in ar x y, centered_moment_in ar y y,
          (case radicand_in ar x y of
             None \<Rightarrow> None
           | Some d \<Rightarrow> if d < 0 then None else ar_round ar (sqrt d)))"
proof -
  let ?xc = "map (\<lambda>v. r_sub ar (Some v) (mean_in ar x)) x"
  let ?yc = "map (\<lambda>v. r_sub ar (Some v) (mean_in ar y)) y"
  have t: "np_times_in ar ?xc ?yc = Inr (map2 (r_mul ar) ?xc ?yc)"
    using assms by (simp add: np_times_in_def)
  have "moments_in ar x y 0 =
      Inr (mean_in ar x, mean_in ar y,
           centered_moment_in ar x x, centered_moment_in ar x y, centered_moment_in ar y y,
           r_sqrt ar (radicand_in ar x y))"
    unfolding moments_in_def Let_def mean_in_def [symmetric] t
    by (simp add: map2_r_mul_r_sub centered_moment_in_def radicand_in_def assms)
  then show ?thesis
    by (simp add: r_sqrt_def split: option.splits)
qed

text \<open>
  An example with collinear points, \<open>y = 3 * x\<close>. In exact arithmetic the radicand is \<open>0\<close> and so
  is the emittance. In float64 the mean \<open>5/3\<close> of \<open>x\<close> is rounded, the radicand comes out as
  \<open>- (1 / 2 ^ 43)\<close>, and the emittance is not a number. The second example has no rounding
  error and emittance \<open>1/2\<close>.
\<close>

text \<open>
  Rounding a number whose binary exponent is known.
\<close>

lemma pow2_powr: "pow2 k = 2 powr real_of_int k"
  by (simp add: pow2_def powr_int)

lemma float64_round_normal:
  assumes "pow2 e \<le> \<bar>r\<bar>" and "\<bar>r\<bar> < pow2 (e + 1)" and "- 1022 \<le> e"
    and "v = real_of_int (np_round (r / pow2 (e - 52))) * pow2 (e - 52)"
    and "\<bar>v\<bar> < pow2 1024"
  shows "float64_round r = Some v"
proof -
  have "0 < pow2 e" by (simp add: pow2_def)
  then have pos: "0 < \<bar>r\<bar>" using assms(1) by linarith
  then have r: "r \<noteq> 0" by auto
  have "\<lfloor>log 2 \<bar>r\<bar>\<rfloor> = e"
    using assms(1,2) pos by (simp add: floor_log_eq_powr_iff pow2_powr)
  then have "max \<lfloor>log 2 \<bar>r\<bar>\<rfloor> (- 1022) = e" using assms(3) by simp
  then show ?thesis using r assms(4,5) by (simp add: float64_round_def Let_def)
qed


lemma float64_sum3:
  "ar_sum float64 [Some a, Some b, Some c] =
     (case float64_round (0 + a) of
        None \<Rightarrow> None
      | Some s \<Rightarrow> (case float64_round (s + b) of None \<Rightarrow> None | Some t \<Rightarrow> float64_round (t + c)))"
  by (simp add: float64_def split: option.splits)

lemma float64_sum4:
  "ar_sum float64 [Some a, Some b, Some c, Some d] =
     (case float64_round (0 + a) of
        None \<Rightarrow> None
      | Some s \<Rightarrow> (case float64_round (s + b) of
          None \<Rightarrow> None
        | Some t \<Rightarrow> (case float64_round (t + c) of None \<Rightarrow> None | Some u \<Rightarrow> float64_round (u + d))))"
  by (simp add: float64_def split: option.splits)

lemma float64_ops:
  "r_sub float64 (Some u) (Some v) = float64_round (u - v)"
  "r_mul float64 (Some u) (Some v) = float64_round (u * v)"
  "r_div float64 (Some u) (Some 3) = float64_round (u / 3)"
  "r_div float64 (Some u) (Some 4) = float64_round (u / 4)"
  by (simp_all add: r_simps float64_def)

lemma short_lists:
  "real (length [a, b, c]) = 3"
  "map Some [a, b, c] = [Some a, Some b, Some c]"
  "map2 f [a, b, c] [a', b', c'] = [f a a', f b b', f c c']"
  "real (length [a, b, c, d]) = 4"
  "map Some [a, b, c, d] = [Some a, Some b, Some c, Some d]"
  "map2 f [a, b, c, d] [a', b', c', d'] = [f a a', f b b', f c c', f d d']"
  by simp_all

lemma float64_example:
  "mean_in float64 [0, 0, 5] = Some (7505999378950827 / 2 ^ 52)"
  "mean_in float64 [0, 0, 15] = Some 5"
  "centered_moment_in float64 [0, 0, 5] [0, 0, 5] = Some (6254999482459021 / 2 ^ 50)"
  "centered_moment_in float64 [0, 0, 5] [0, 0, 15] = Some (4691249611844267 / 2 ^ 48)"
  "centered_moment_in float64 [0, 0, 15] [0, 0, 15] = Some 50"
  "radicand_in float64 [0, 0, 5] [0, 0, 15] = Some (- (1 / 2 ^ 43))"
  "mean_in float64 [1, - 1, 0, 0] = Some 0"
  "mean_in float64 [0, 0, 1, - 1] = Some 0"
  "centered_moment_in float64 [1, - 1, 0, 0] [1, - 1, 0, 0] = Some (1 / 2)"
  "centered_moment_in float64 [1, - 1, 0, 0] [0, 0, 1, - 1] = Some 0"
  "centered_moment_in float64 [0, 0, 1, - 1] [0, 0, 1, - 1] = Some (1 / 2)"
  "radicand_in float64 [1, - 1, 0, 0] [0, 0, 1, - 1] = Some (1 / 4)"
proof -
  have r0: "float64_round (0 + 0) = Some (0)"
    by (simp add: float64_round_def)
  have r1: "float64_round (0 + 5) = Some (5)"
    by (rule float64_round_normal [where e = "2"]) (simp_all add: pow2_def np_round_def)
  have r2: "float64_round (5 / 3) = Some (7505999378950827 / 2 ^ 52)"
    by (rule float64_round_normal [where e = "0"]) (simp_all add: pow2_def np_round_def)
  have r3: "float64_round (0 + 15) = Some (15)"
    by (rule float64_round_normal [where e = "3"]) (simp_all add: pow2_def np_round_def)
  have r4: "float64_round (15 / 3) = Some (5)"
    by (rule float64_round_normal [where e = "2"]) (simp_all add: pow2_def np_round_def)
  have r5: "float64_round (0 - (7505999378950827 / 2 ^ 52)) = Some (- (7505999378950827 / 2 ^ 52))"
    by (rule float64_round_normal [where e = "0"]) (simp_all add: pow2_def np_round_def)
  have r6: "float64_round ((- (7505999378950827 / 2 ^ 52)) * (- (7505999378950827 / 2 ^ 52))) = Some (6254999482459023 / 2 ^ 51)"
    by (rule float64_round_normal [where e = "1"]) (simp_all add: pow2_def np_round_def)
  have r7: "float64_round (5 - (7505999378950827 / 2 ^ 52)) = Some (3752999689475413 / 2 ^ 50)"
    by (rule float64_round_normal [where e = "1"]) (simp_all add: pow2_def np_round_def)
  have r8: "float64_round ((3752999689475413 / 2 ^ 50) * (3752999689475413 / 2 ^ 50)) = Some (6254999482459021 / 2 ^ 49)"
    by (rule float64_round_normal [where e = "3"]) (simp_all add: pow2_def np_round_def)
  have r9: "float64_round (0 + (6254999482459023 / 2 ^ 51)) = Some (6254999482459023 / 2 ^ 51)"
    by (rule float64_round_normal [where e = "1"]) (simp_all add: pow2_def np_round_def)
  have r10: "float64_round ((6254999482459023 / 2 ^ 51) + (6254999482459023 / 2 ^ 51)) = Some (6254999482459023 / 2 ^ 50)"
    by (rule float64_round_normal [where e = "2"]) (simp_all add: pow2_def np_round_def)
  have r11: "float64_round ((6254999482459023 / 2 ^ 50) + (6254999482459021 / 2 ^ 49)) = Some (2345624805922133 / 2 ^ 47)"
    by (rule float64_round_normal [where e = "4"]) (simp_all add: pow2_def np_round_def)
  have r12: "float64_round ((2345624805922133 / 2 ^ 47) / 3) = Some (6254999482459021 / 2 ^ 50)"
    by (rule float64_round_normal [where e = "2"]) (simp_all add: pow2_def np_round_def)
  have r13: "float64_round (0 - 5) = Some (- 5)"
    by (rule float64_round_normal [where e = "2"]) (simp_all add: pow2_def np_round_def)
  have r14: "float64_round ((- (7505999378950827 / 2 ^ 52)) * (- 5)) = Some (4691249611844267 / 2 ^ 49)"
    by (rule float64_round_normal [where e = "3"]) (simp_all add: pow2_def np_round_def)
  have r15: "float64_round (15 - 5) = Some (10)"
    by (rule float64_round_normal [where e = "3"]) (simp_all add: pow2_def np_round_def)
  have r16: "float64_round ((3752999689475413 / 2 ^ 50) * 10) = Some (2345624805922133 / 2 ^ 46)"
    by (rule float64_round_normal [where e = "5"]) (simp_all add: pow2_def np_round_def)
  have r17: "float64_round (0 + (4691249611844267 / 2 ^ 49)) = Some (4691249611844267 / 2 ^ 49)"
    by (rule float64_round_normal [where e = "3"]) (simp_all add: pow2_def np_round_def)
  have r18: "float64_round ((4691249611844267 / 2 ^ 49) + (4691249611844267 / 2 ^ 49)) = Some (4691249611844267 / 2 ^ 48)"
    by (rule float64_round_normal [where e = "4"]) (simp_all add: pow2_def np_round_def)
  have r19: "float64_round ((4691249611844267 / 2 ^ 48) + (2345624805922133 / 2 ^ 46)) = Some (50)"
    by (rule float64_round_normal [where e = "5"]) (simp_all add: pow2_def np_round_def)
  have r20: "float64_round (50 / 3) = Some (4691249611844267 / 2 ^ 48)"
    by (rule float64_round_normal [where e = "4"]) (simp_all add: pow2_def np_round_def)
  have r21: "float64_round ((- 5) * (- 5)) = Some (25)"
    by (rule float64_round_normal [where e = "4"]) (simp_all add: pow2_def np_round_def)
  have r22: "float64_round (10 * 10) = Some (100)"
    by (rule float64_round_normal [where e = "6"]) (simp_all add: pow2_def np_round_def)
  have r23: "float64_round (0 + 25) = Some (25)"
    by (rule float64_round_normal [where e = "4"]) (simp_all add: pow2_def np_round_def)
  have r24: "float64_round (25 + 25) = Some (50)"
    by (rule float64_round_normal [where e = "5"]) (simp_all add: pow2_def np_round_def)
  have r25: "float64_round (50 + 100) = Some (150)"
    by (rule float64_round_normal [where e = "7"]) (simp_all add: pow2_def np_round_def)
  have r26: "float64_round (150 / 3) = Some (50)"
    by (rule float64_round_normal [where e = "5"]) (simp_all add: pow2_def np_round_def)
  have r27: "float64_round ((6254999482459021 / 2 ^ 50) * 50) = Some (2443359172835555 / 2 ^ 43)"
    by (rule float64_round_normal [where e = "8"]) (simp_all add: pow2_def np_round_def)
  have r28: "float64_round ((4691249611844267 / 2 ^ 48) * (4691249611844267 / 2 ^ 48)) = Some (610839793208889 / 2 ^ 41)"
    by (rule float64_round_normal [where e = "8"]) (simp_all add: pow2_def np_round_def)
  have r29: "float64_round ((2443359172835555 / 2 ^ 43) - (610839793208889 / 2 ^ 41)) = Some (- (1 / 2 ^ 43))"
    by (rule float64_round_normal [where e = "-43"]) (simp_all add: pow2_def np_round_def)
  have r30: "float64_round (0 + 1) = Some (1)"
    by (rule float64_round_normal [where e = "0"]) (simp_all add: pow2_def np_round_def)
  have r31: "float64_round (1 + (- 1)) = Some (0)"
    by (simp add: float64_round_def)
  have r32: "float64_round (0 / 4) = Some (0)"
    by (simp add: float64_round_def)
  have r33: "float64_round (1 - 0) = Some (1)"
    by (rule float64_round_normal [where e = "0"]) (simp_all add: pow2_def np_round_def)
  have r34: "float64_round (1 * 1) = Some (1)"
    by (rule float64_round_normal [where e = "0"]) (simp_all add: pow2_def np_round_def)
  have r35: "float64_round ((- 1) - 0) = Some (- 1)"
    by (rule float64_round_normal [where e = "0"]) (simp_all add: pow2_def np_round_def)
  have r36: "float64_round ((- 1) * (- 1)) = Some (1)"
    by (rule float64_round_normal [where e = "0"]) (simp_all add: pow2_def np_round_def)
  have r37: "float64_round (0 - 0) = Some (0)"
    by (simp add: float64_round_def)
  have r38: "float64_round (0 * 0) = Some (0)"
    by (simp add: float64_round_def)
  have r39: "float64_round (1 + 1) = Some (2)"
    by (rule float64_round_normal [where e = "1"]) (simp_all add: pow2_def np_round_def)
  have r40: "float64_round (2 + 0) = Some (2)"
    by (rule float64_round_normal [where e = "1"]) (simp_all add: pow2_def np_round_def)
  have r41: "float64_round (2 / 4) = Some (1 / 2)"
    by (rule float64_round_normal [where e = "-1"]) (simp_all add: pow2_def np_round_def)
  have r42: "float64_round (1 * 0) = Some (0)"
    by (simp add: float64_round_def)
  have r43: "float64_round ((- 1) * 0) = Some (0)"
    by (simp add: float64_round_def)
  have r44: "float64_round (0 * 1) = Some (0)"
    by (simp add: float64_round_def)
  have r45: "float64_round (0 * (- 1)) = Some (0)"
    by (simp add: float64_round_def)
  have r46: "float64_round ((1 / 2) * (1 / 2)) = Some (1 / 4)"
    by (rule float64_round_normal [where e = "-2"]) (simp_all add: pow2_def np_round_def)
  have r47: "float64_round ((1 / 4) - 0) = Some (1 / 4)"
    by (rule float64_round_normal [where e = "-2"]) (simp_all add: pow2_def np_round_def)
  note r = r0 r1 r2 r3 r4 r5 r6 r7 r8 r9 r10 r11 r12 r13 r14 r15 r16 r17 r18 r19 r20 r21 r22 r23 r24 r25 r26 r27 r28 r29 r30 r31 r32 r33 r34 r35 r36 r37 r38 r39 r40 r41 r42 r43 r44 r45 r46 r47
  note ev = short_lists float64_sum3 float64_sum4 float64_ops r option.case
  show m1: "mean_in float64 [0, 0, 5] = Some (7505999378950827 / 2 ^ 52)"
    by (simp only: mean_in_def ev)
  show m2: "mean_in float64 [0, 0, 15] = Some 5"
    by (simp only: mean_in_def ev)
  show c1: "centered_moment_in float64 [0, 0, 5] [0, 0, 5] = Some (6254999482459021 / 2 ^ 50)"
    unfolding centered_moment_in_def m1 by (simp only: ev)
  show c2: "centered_moment_in float64 [0, 0, 5] [0, 0, 15] = Some (4691249611844267 / 2 ^ 48)"
    unfolding centered_moment_in_def m1 m2 by (simp only: ev)
  show c3: "centered_moment_in float64 [0, 0, 15] [0, 0, 15] = Some 50"
    unfolding centered_moment_in_def m2 by (simp only: ev)
  show "radicand_in float64 [0, 0, 5] [0, 0, 15] = Some (- (1 / 2 ^ 43))"
    unfolding radicand_in_def c1 c2 c3 by (simp only: ev)
  show n1: "mean_in float64 [1, - 1, 0, 0] = Some 0"
    by (simp only: mean_in_def ev)
  show n2: "mean_in float64 [0, 0, 1, - 1] = Some 0"
    by (simp only: mean_in_def ev)
  show d1: "centered_moment_in float64 [1, - 1, 0, 0] [1, - 1, 0, 0] = Some (1 / 2)"
    unfolding centered_moment_in_def n1 by (simp only: ev)
  show d2: "centered_moment_in float64 [1, - 1, 0, 0] [0, 0, 1, - 1] = Some 0"
    unfolding centered_moment_in_def n1 n2 by (simp only: ev)
  show d3: "centered_moment_in float64 [0, 0, 1, - 1] [0, 0, 1, - 1] = Some (1 / 2)"
    unfolding centered_moment_in_def n2 by (simp only: ev)
  show "radicand_in float64 [1, - 1, 0, 0] [0, 0, 1, - 1] = Some (1 / 4)"
    unfolding radicand_in_def d1 d2 d3 by (simp only: ev)
qed

lemma float64_round_half: "ar_round float64 (1 / 2) = Some (1 / 2)"
  unfolding float64_def arith.simps
  by (rule float64_round_normal [where e = "- 1"]) (simp_all add: pow2_def np_round_def)

lemma moments_exact_example:
  "moments [0, 0, 5] [0, 0, 15] 0 = Inr (Some (5 / 3), Some 5, Some (50 / 9), Some (50 / 3), Some 50, Some 0)"
  using moments_population [of "[0, 0, 5]" "[0, 0, 15]"]
  by (simp add: sample_mean_def centered_moment_def power2_eq_square)

theorem moments_emittance_witness:
  "length [0, 0, 5 :: real] = length [0, 0, 15 :: real] \<and>
   moments_in float64 [0, 0, 5] [0, 0, 15] 0
     = Inr (Some (7505999378950827 / 2 ^ 52), Some 5, Some (6254999482459021 / 2 ^ 50),
            Some (4691249611844267 / 2 ^ 48), Some 50, None) \<and>
   length [1, - 1, 0, 0 :: real] = length [0, 0, 1, - 1 :: real] \<and>
   moments_in float64 [1, - 1, 0, 0] [0, 0, 1, - 1] 0
     = Inr (Some 0, Some 0, Some (1 / 2), Some 0, Some (1 / 2), Some (1 / 2))"
  using moments_emittance [of "[0, 0, 5]" "[0, 0, 15]" float64]
    moments_emittance [of "[1, - 1, 0, 0]" "[0, 0, 1, - 1]" float64]
  by (simp add: float64_example sqrt_quarter float64_round_half)


text \<open>
  Claim C2 against the code. One particle with \<open>px = 1\<close>, \<open>py = 1\<close> and no dispersion: the
  specified correction multiplies both momenta by \<open>1 - 1/2 - 1/2 = 0\<close>. \<^verbatim>\<open>get_envelope\<close> returns
  the mean \<open>px = 0\<close>, and the mean \<open>py = 1/2\<close>: the factor of \<open>py\<close> was computed from the
  corrected \<open>px = 0\<close>. Both branches of \<^verbatim>\<open>ne_flag\<close> do so.
\<close>

theorem get_envelope_py_uses_corrected_px:
  "small_angle_correction 1 1 = (0, 0) \<and>
   tws_px (get_envelope False
     \<lparr>rparticles = [[0], [1], [0], [1], [0], [0]], q_array = [1], ref_s = 0, ref_E = Some 1\<rparr>
     Twiss_init) = Some 0 \<and>
   tws_py (get_envelope False
     \<lparr>rparticles = [[0], [1], [0], [1], [0], [0]], q_array = [1], ref_s = 0, ref_E = Some 1\<rparr>
     Twiss_init) = Some (1 / 2) \<and>
   tws_py (get_envelope True
     \<lparr>rparticles = [[0], [1], [0], [1], [0], [0]], q_array = [1], ref_s = 0, ref_E = Some 1\<rparr>
     Twiss_init) = Some (1 / 2)"
  by (simp add: small_angle_correction_def get_envelope_def Let_def Twiss_init_def
      ParticleArray_x_def ParticleArray_px_def ParticleArray_y_def ParticleArray_py_def
      ParticleArray_p_def np_mean_def np_sum_def float_simps)

section \<open>Beam matching\<close>

text \<open>
  On a coordinate matrix of shape \<open>(6, n)\<close> the function \<^verbatim>\<open>beam_matching\<close> gives its work array
  \<open>int(6/6) = 1\<close> row, and its first copy \<^verbatim>\<open>pd[:, 0] = particles[0]\<close> raises unless \<open>n = 1\<close>.
\<close>

lemma beam_matching_raises:
  assumes "has_shape particles n" and "n \<noteq> 1"
  shows "beam_matching particles bounds x_opt y_opt = Inl ValueError"
proof -
  obtain r0 r1 r2 r3 r4 r5 where rp: "particles = [r0, r1, r2, r3, r4, r5]"
    using assms(1) six_rows unfolding has_shape_def by blast
  have "length r0 = n" using assms(1) by (simp add: has_shape_def rp)
  then show ?thesis using assms(2)
    by (simp add: beam_matching_def beam_matching_body_def copy_columns_def and_then_def assign_slice_def rp)
qed

lemma moments_returns:
  assumes "length x = length y"
  shows "\<exists>r. moments x y 0 = Inr r"
  using assms by (simp add: moments_def Let_def np_times_def)

lemma plane_matrix_returns:
  assumes "length u = length us"
  shows "\<exists>M. plane_matrix u us opt = Inr M"
proof -
  obtain r where "moments u us 0 = Inr r" using moments_returns [OF assms] by blast
  then show ?thesis by (cases r) (simp add: plane_matrix_def Let_def del: ex_simps split_paired_Ex)
qed

lemma length_apply_row: "length u = length us \<Longrightarrow> length (apply_row c d u us) = length u"
  by (simp add: apply_row_def)

text \<open>
  The method \<^verbatim>\<open>BeamTransform.beam_matching\<close> sizes the work array by the number of particles.
  It returns normally, and rows 0 to 3 of the result hold, for every particle, the image of
  its pair under the matrix of its plane; the window enters through the moments only.
\<close>

lemma BeamTransform_beam_matching_all:
  assumes "has_shape particles n"
  shows "\<exists>M N.
     plane_matrix (map (\<lambda>i. particles ! 0 ! i) (window_inds (particles ! 4) bounds))
                  (map (\<lambda>i. particles ! 1 ! i) (window_inds (particles ! 4) bounds)) x_opt = Inr M \<and>
     plane_matrix (map (\<lambda>i. particles ! 2 ! i) (window_inds (particles ! 4) bounds))
                  (map (\<lambda>i. particles ! 3 ! i) (window_inds (particles ! 4) bounds)) y_opt = Inr N \<and>
     BeamTransform_beam_matching particles bounds x_opt y_opt =
       Inr [apply_row (fst (fst M)) (snd (fst M)) (particles ! 0) (particles ! 1),
            apply_row (fst (snd M)) (snd (snd M)) (particles ! 0) (particles ! 1),
            apply_row (fst (fst N)) (snd (fst N)) (particles ! 2) (particles ! 3),
            apply_row (fst (snd N)) (snd (snd N)) (particles ! 2) (particles ! 3),
            map Some (particles ! 4), map Some (particles ! 5)]"
proof -
  obtain r0 r1 r2 r3 r4 r5 where rp: "particles = [r0, r1, r2, r3, r4, r5]"
    using assms six_rows unfolding has_shape_def by blast
  have len: "length r0 = n" "length r1 = n" "length r2 = n" "length r3 = n"
    "length r4 = n" "length r5 = n"
    using assms by (simp_all add: has_shape_def rp)
  have k: "sum_list (map length particles) div 6 = n" by (simp add: rp len)
  have cc: "copy_columns n particles = Inr [r0, r1, r2, r3, r4, r5]"
    by (simp add: copy_columns_def and_then_def assign_slice_def rp len)
  let ?inds = "window_inds r4 bounds"
  obtain M where M: "plane_matrix (map (\<lambda>i. r0 ! i) ?inds) (map (\<lambda>i. r1 ! i) ?inds) x_opt = Inr M"
    using plane_matrix_returns [of "map (\<lambda>i. r0 ! i) ?inds" "map (\<lambda>i. r1 ! i) ?inds" x_opt]
    by (simp del: split_paired_Ex) blast
  obtain N where N: "plane_matrix (map (\<lambda>i. r2 ! i) ?inds) (map (\<lambda>i. r3 ! i) ?inds) y_opt = Inr N"
    using plane_matrix_returns [of "map (\<lambda>i. r2 ! i) ?inds" "map (\<lambda>i. r3 ! i) ?inds" y_opt]
    by (simp del: split_paired_Ex) blast
  have mx: "match_plane n r0 r1 ?inds x_opt
      = Inr (apply_row (fst (fst M)) (snd (fst M)) r0 r1, apply_row (fst (snd M)) (snd (snd M)) r0 r1)"
    by (simp add: match_plane_def and_then_def M assign_slice_def length_apply_row len)
  have my: "match_plane n r2 r3 ?inds y_opt
      = Inr (apply_row (fst (fst N)) (snd (fst N)) r2 r3, apply_row (fst (snd N)) (snd (snd N)) r2 r3)"
    by (simp add: match_plane_def and_then_def N assign_slice_def length_apply_row len)
  have "BeamTransform_beam_matching particles bounds x_opt y_opt =
       Inr [apply_row (fst (fst M)) (snd (fst M)) r0 r1,
            apply_row (fst (snd M)) (snd (snd M)) r0 r1,
            apply_row (fst (fst N)) (snd (fst N)) r2 r3,
            apply_row (fst (snd N)) (snd (snd N)) r2 r3,
            map Some r4, map Some r5]"
    unfolding BeamTransform_beam_matching_def k beam_matching_body_def cc
    by (simp add: and_then_def Let_def rp len mx my)
  with M N show ?thesis by (simp add: rp)
qed

lemma sqrt_16: "sqrt 16 = 4"
  by (rule real_sqrt_unique) (simp_all add: power2_eq_square)

lemma sqrt_4: "sqrt 4 = 2"
  by (rule real_sqrt_unique) (simp_all add: power2_eq_square)

lemma window_inds_example: "window_inds [0, 0, 0, 0, 10] (- 1, 1) = [0, 1, 2, 3]"
  by (simp add: window_inds_def Let_def np_mean_def np_std_def np_sum_def float_simps
      argwhere_def fle_def sqrt_16 upt_rec)

lemma plane_matrix_example:
  "plane_matrix [1, - 1, 0, 0] [0, 0, 1, - 1] (0, 4, 0) = Inr ((Some 2, Some 0), (Some 0, Some (1 / 2)))"
proof -
  have "moments [1, - 1, 0, 0] [0, 0, 1, - 1] 0
     = Inr (Some 0, Some 0, Some (1 / 2), Some 0, Some (1 / 2), Some (1 / 2))"
    by (simp add: moments_def Let_def np_mean_def np_sum_def np_times_def float_simps sqrt_quarter)
  then show ?thesis
    by (simp add: plane_matrix_def Let_def m_from_twiss_def float_simps fcos_def fsin_def
        sqrt_4 sqrt_quarter)
qed

text \<open>
  Five particles, the last one (\<open>tau = 10\<close>) outside the window \<open>[-2, 6]\<close>; the four inside give
  \<open>beta = 1\<close>, \<open>alpha = 0\<close>, and the target \<open>beta = 4\<close> gives the matrix \<open>diag(2, 1/2)\<close>. The
  method transforms all five.
\<close>

lemma BeamTransform_beam_matching_example:
  "BeamTransform_beam_matching
     [[1, - 1, 0, 0, 3], [0, 0, 1, - 1, 5], [1, - 1, 0, 0, 3], [0, 0, 1, - 1, 5],
      [0, 0, 0, 0, 10], [0, 0, 0, 0, 0]] (- 1, 1) (0, 4, 0) (0, 4, 0)
   = Inr [map Some [2, - 2, 0, 0, 6], map Some [0, 0, 1 / 2, - 1 / 2, 5 / 2],
          map Some [2, - 2, 0, 0, 6], map Some [0, 0, 1 / 2, - 1 / 2, 5 / 2],
          map Some [0, 0, 0, 0, 10], map Some [0, 0, 0, 0, 0]]"
  by (simp add: BeamTransform_beam_matching_def beam_matching_body_def copy_columns_def
      and_then_def assign_slice_def window_inds_example match_plane_def plane_matrix_example
      apply_row_def float_simps)

text \<open>
  Claim C5 against the code. On the same five particles the function \<^verbatim>\<open>beam_matching\<close> of
  the module transforms no particle: it raises \<^verbatim>\<open>ValueError\<close>.
\<close>

theorem beam_matching_five_particles_raises:
  "beam_matching
     [[1, - 1, 0, 0, 3], [0, 0, 1, - 1, 5], [1, - 1, 0, 0, 3], [0, 0, 1, - 1, 5],
      [0, 0, 0, 0, 10], [0, 0, 0, 0, 0]] (- 1, 1) (0, 4, 0) (0, 4, 0)
   = Inl ValueError"
  by (simp add: beam_matching_def beam_matching_body_def copy_columns_def and_then_def
      assign_slice_def)

section \<open>Slice analysis with a window over the whole sample\<close>

lemma length_cumsum_from: "length (cumsum_from a vs) = length vs"
  by (induction vs arbitrary: a) simp_all














section \<open>The tuning loop\<close>

lemma within_limits_eq:
  "length x = length correctors \<Longrightarrow>
     within_limits gl correctors x = Inr (\<not> out_of_limits gl correctors x)"
proof (induction gl correctors x rule: within_limits.induct)
  case (1 gl correctors)
  then show ?case by (simp add: out_of_limits_def)
next
  case (2 gl v x)
  then show ?case by simp
next
  case (3 gl c correctors v x)
  then show ?case by (auto simp: out_of_limits_def)
qed

lemma set_all_written:
  "length correctors \<le> length v \<Longrightarrow> set_all self correctors v w = (None, written self correctors v w)"
proof (induction self correctors v w rule: set_all.induct)
  case (1 self v w)
  then show ?case by (simp add: written_def)
next
  case (2 self c correctors w)
  then show ?case by simp
next
  case (3 self c correctors a v w)
  then show ?case by (simp add: written_def)
qed

lemma calls_written:
  "calls (written self correctors v w) = calls w @ map2 Set_value correctors v"
proof -
  have "calls (foldl (\<lambda>w (c, a). do_set_value self c a w) w ps)
          = calls w @ map (\<lambda>(c, a). Set_value c a) ps" for ps
    by (induction ps arbitrary: w) (auto simp: do_set_value_def)
  then show ?thesis by (simp add: written_def)
qed

lemma machine_written:
  "machine (written self correctors v w)
     = foldl (\<lambda>m (c, a). mi_set_value (opt_mi self) c a m) (machine w) (zip correctors v)"
proof -
  have "machine (foldl (\<lambda>w (c, a). do_set_value self c a w) w ps)
          = foldl (\<lambda>m (c, a). mi_set_value (opt_mi self) c a m) (machine w) ps" for ps
    by (induction ps arbitrary: w) (auto simp: do_set_value_def)
  then show ?thesis by (simp add: written_def)
qed

text \<open>
  Claim C9. For a proposed vector with one component per actuator: when a component is outside
  the limits of its actuator, \<^verbatim>\<open>error_func\<close> returns the penalty \<open>100\<close> and has made no call
  to the machine. Otherwise it writes every actuator, sleeps, reads the objective and the
  alarms, in this order and nothing else, and (the list of alarm levels not being empty)
  returns \<open>100\<close> when the greatest alarm level is above \<open>1\<close>, \<open>50\<close> times that level when it is
  above \<open>0.7\<close>, and the level minus the objective otherwise.
\<close>

theorem error_func_penalties:
  assumes "length x = length correctors"
  shows "(out_of_limits (opt_get_limits self) correctors x \<longrightarrow>
            error_func self correctors x w = (Inr 100, w))
       \<and> (\<not> out_of_limits (opt_get_limits self) correctors x \<longrightarrow>
            (let w2 = do_sleep self (opt_timeout self) (written self correctors x w);
                 sase = fst (do_get_sase self w2);
                 w3 = snd (do_get_sase self w2);
                 alarms = fst (do_get_alarms self w3);
                 w4 = snd (do_get_alarms self w3);
                 alarm = Max (set alarms)
             in calls w4 = calls w @ map2 Set_value correctors x
                             @ [Sleep (opt_timeout self), Get_sase, Get_alarms]
              \<and> (alarms \<noteq> [] \<longrightarrow>
                   error_func self correctors x w =
                     (Inr (if alarm > 1 then 100
                           else if alarm > 7 / 10 then alarm * 50
                           else alarm - sase), w4))))"
proof (intro conjI impI)
  assume "out_of_limits (opt_get_limits self) correctors x"
  then show "error_func self correctors x w = (Inr 100, w)"
    by (simp add: error_func_def within_limits_eq [OF assms] pen_max_def)
next
  assume ok: "\<not> out_of_limits (opt_get_limits self) correctors x"
  have sa: "set_all self correctors x w = (None, written self correctors x w)"
    by (rule set_all_written) (simp add: assms)
  show "let w2 = do_sleep self (opt_timeout self) (written self correctors x w);
            sase = fst (do_get_sase self w2);
            w3 = snd (do_get_sase self w2);
            alarms = fst (do_get_alarms self w3);
            w4 = snd (do_get_alarms self w3);
            alarm = Max (set alarms)
        in calls w4 = calls w @ map2 Set_value correctors x
                        @ [Sleep (opt_timeout self), Get_sase, Get_alarms]
         \<and> (alarms \<noteq> [] \<longrightarrow>
              error_func self correctors x w =
                (Inr (if alarm > 1 then 100
                      else if alarm > 7 / 10 then alarm * 50
                      else alarm - sase), w4))"
    using ok
    by (simp add: Let_def error_func_def within_limits_eq [OF assms] sa split_def
        penalty_def pen_max_def calls_written do_sleep_def do_get_sase_def do_get_alarms_def)
qed

theorem error_func_penalties_witness:
  "length [3, 3 :: real] = length [''h'', ''v''] \<and>
   out_of_limits (opt_get_limits quadratic_optimizer) [''h'', ''v''] [2000, 0] \<and>
   error_func quadratic_optimizer [''h'', ''v''] [2000, 0] \<lparr>machine = (\<lambda>name. 0), calls = []\<rparr>
     = (Inr 100, \<lparr>machine = (\<lambda>name. 0), calls = []\<rparr>) \<and>
   \<not> out_of_limits (opt_get_limits quadratic_optimizer) [''h'', ''v''] [3, 3] \<and>
   fst (error_func quadratic_optimizer [''h'', ''v''] [3, 3] \<lparr>machine = (\<lambda>name. 0), calls = []\<rparr>)
     = Inr (- 5) \<and>
   calls (snd (error_func quadratic_optimizer [''h'', ''v''] [3, 3]
                 \<lparr>machine = (\<lambda>name. 0), calls = []\<rparr>))
     = [Set_value ''h'' 3, Set_value ''v'' 3, Sleep 1, Get_sase, Get_alarms]"
proof -
  let ?w = "\<lparr>machine = (\<lambda>name. 0 :: real), calls = []\<rparr>"
  have a: "out_of_limits (opt_get_limits quadratic_optimizer) [''h'', ''v''] [2000, 0]"
    by (simp add: out_of_limits_def quadratic_optimizer_def)
  have b: "\<not> out_of_limits (opt_get_limits quadratic_optimizer) [''h'', ''v''] [3, 3]"
    by (simp add: out_of_limits_def quadratic_optimizer_def)
  have "error_func quadratic_optimizer [''h'', ''v''] [2000, 0] ?w = (Inr 100, ?w)"
    using error_func_penalties [of "[2000, 0]" "[''h'', ''v'']" quadratic_optimizer ?w] a by simp
  moreover have
    "fst (error_func quadratic_optimizer [''h'', ''v''] [3, 3] ?w) = Inr (- 5) \<and>
     calls (snd (error_func quadratic_optimizer [''h'', ''v''] [3, 3] ?w))
       = [Set_value ''h'' 3, Set_value ''v'' 3, Sleep 1, Get_sase, Get_alarms]"
    using error_func_penalties [of "[3, 3]" "[''h'', ''v'']" quadratic_optimizer ?w] b
    by (simp add: Let_def written_def do_set_value_def do_sleep_def do_get_sase_def
        do_get_alarms_def quadratic_optimizer_def quadratic_machine_def power2_eq_square)
  ultimately show ?thesis using a b by simp
qed

text \<open>
  Claim C8. When the minimizer has returned, \<^verbatim>\<open>max_sase\<close> reads the objective once more, and
  then writes every actuator back to its baseline value, in order, if the final reading is
  not greater than the baseline reading, and makes no further call if it is greater.
\<close>

theorem max_sase_reverts:
  assumes "do_get_sase self w = (sase_ref, w1)"
    and "do_init_corrector_vals self correctors w1 = (x_init, w2)"
    and "run_minimizer self scipy correctors method params x_init w2 = (None, w3)"
    and "do_get_sase self w3 = (sase_new, w4)"
    and "length correctors \<le> length x_init"
  shows "max_sase self scipy correctors method params w =
           (None, if sase_new \<le> sase_ref then written self correctors x_init w4 else w4)
       \<and> calls (snd (max_sase self scipy correctors method params w)) =
           calls w4 @ (if sase_new \<le> sase_ref then map2 Set_value correctors x_init else [])"
  using assms by (simp add: max_sase_def Let_def set_all_written calls_written)

lemma quadratic_simps:
  "opt_mi quadratic_optimizer = quadratic_machine"
  "opt_timeout quadratic_optimizer = 1"
  "opt_sleep quadratic_optimizer t m = m"
  "opt_get_limits quadratic_optimizer name = (- 1000, 1000)"
  "mi_get_alarms quadratic_machine m = ([0], m)"
  "mi_get_sase quadratic_machine m = (10 - (m ''h'' - 1)\<^sup>2 - (m ''v'' - 2)\<^sup>2, m)"
  "mi_set_value quadratic_machine name val m = m(name := val)"
  "mi_init_corrector_vals quadratic_machine correctors m = (map m correctors, m)"
  by (simp_all add: quadratic_optimizer_def quadratic_machine_def)

lemmas do_simps = do_set_value_def do_sleep_def do_get_sase_def do_get_alarms_def
  do_init_corrector_vals_def

theorem max_sase_reverts_witness:
  "fst (max_sase quadratic_optimizer (probing [3, 3]) [''h'', ''v''] ''simplex'' Map.empty
          \<lparr>machine = (\<lambda>name. 0), calls = []\<rparr>) = None \<and>
   calls (snd (max_sase quadratic_optimizer (probing [3, 3]) [''h'', ''v''] ''simplex'' Map.empty
          \<lparr>machine = (\<lambda>name. 0), calls = []\<rparr>))
     = [Get_sase, Init_corrector_vals [''h'', ''v''],
        Set_value ''h'' 3, Set_value ''v'' 3, Sleep 1, Get_sase, Get_alarms,
        Get_sase, Set_value ''h'' 0, Set_value ''v'' 0] \<and>
   calls (snd (max_sase quadratic_optimizer (probing [1, 2]) [''h'', ''v''] ''simplex'' Map.empty
          \<lparr>machine = (\<lambda>name. 0), calls = []\<rparr>))
     = [Get_sase, Init_corrector_vals [''h'', ''v''],
        Set_value ''h'' 1, Set_value ''v'' 2, Sleep 1, Get_sase, Get_alarms,
        Get_sase]"
proof -
  let ?o = "quadratic_optimizer" and ?cs = "[''h'', ''v'']"
  let ?w = "\<lparr>machine = (\<lambda>name. 0 :: real), calls = []\<rparr>"
  let ?w1 = "snd (do_get_sase ?o ?w)"
  let ?w2 = "snd (do_init_corrector_vals ?o ?cs ?w1)"
  have x0: "fst (do_init_corrector_vals ?o ?cs ?w1) = [0, 0]"
    by (simp add: do_simps quadratic_simps)
  have ref: "fst (do_get_sase ?o ?w) = 5"
    by (simp add: do_simps quadratic_simps power2_eq_square)
  have run: "run_minimizer ?o (probing p) ?cs ''simplex'' Map.empty [0, 0] ?w2
               = (None, snd (error_func ?o ?cs p ?w2))"
    if "length p = 2" and "\<not> out_of_limits (opt_get_limits ?o) ?cs p" for p
    using that
    by (simp add: run_minimizer_def probing_def probe_at_def error_func_def within_limits_eq
        set_all_written Let_def do_simps quadratic_simps split_def)
  have lim: "\<not> out_of_limits (opt_get_limits ?o) ?cs [3, 3]"
            "\<not> out_of_limits (opt_get_limits ?o) ?cs [1, 2]"
    by (simp_all add: out_of_limits_def quadratic_simps)
  let ?w3 = "\<lambda>p. snd (error_func ?o ?cs p ?w2)"
  have w3: "snd (error_func ?o ?cs [a, b] ?w2) =
      \<lparr>machine = (\<lambda>name. 0)(''h'' := a, ''v'' := b),
       calls = [Get_sase, Init_corrector_vals ?cs, Set_value ''h'' a, Set_value ''v'' b,
                Sleep 1, Get_sase, Get_alarms]\<rparr>"
    if "\<not> out_of_limits (opt_get_limits ?o) ?cs [a, b]" for a b
    using that
    by (simp add: error_func_def out_of_limits_def written_def Let_def
        do_simps quadratic_simps split_def)
  have a1: "do_get_sase ?o ?w = (5, ?w1)"
    using ref by (metis prod.collapse)
  have a2: "do_init_corrector_vals ?o ?cs ?w1 = ([0, 0], ?w2)"
    using x0 by (metis prod.collapse)
  have a4: "do_get_sase ?o (?w3 p) = (fst (do_get_sase ?o (?w3 p)), snd (do_get_sase ?o (?w3 p)))"
    for p by simp
  have a5: "length ?cs \<le> length [0, 0 :: real]" by simp
  have r33: "run_minimizer ?o (probing [3, 3]) ?cs ''simplex'' Map.empty [0, 0] ?w2
               = (None, ?w3 [3, 3])"
    by (rule run) (simp_all add: lim)
  have r12: "run_minimizer ?o (probing [1, 2]) ?cs ''simplex'' Map.empty [0, 0] ?w2
               = (None, ?w3 [1, 2])"
    by (rule run) (simp_all add: lim)
  note A = max_sase_reverts [OF a1 a2 r33 a4 a5]
  note B = max_sase_reverts [OF a1 a2 r12 a4 a5]
  have c33: "calls (snd (max_sase ?o (probing [3, 3]) ?cs ''simplex'' Map.empty ?w))
     = [Get_sase, Init_corrector_vals ?cs,
        Set_value ''h'' 3, Set_value ''v'' 3, Sleep 1, Get_sase, Get_alarms,
        Get_sase, Set_value ''h'' 0, Set_value ''v'' 0]"
    unfolding A [THEN conjunct2] w3 [OF lim(1)]
    by (simp add: do_simps quadratic_simps power2_eq_square)
  have c12: "calls (snd (max_sase ?o (probing [1, 2]) ?cs ''simplex'' Map.empty ?w))
     = [Get_sase, Init_corrector_vals ?cs,
        Set_value ''h'' 1, Set_value ''v'' 2, Sleep 1, Get_sase, Get_alarms,
        Get_sase]"
    unfolding B [THEN conjunct2] w3 [OF lim(2)]
    by (simp add: do_simps quadratic_simps power2_eq_square)
  show ?thesis
    using A [THEN conjunct1] c33 c12 by simp
qed

section \<open>The current profile\<close>

lemma sum_list_update_real:
  fixes xs :: "real list"
  shows "k < length xs \<Longrightarrow> sum_list (xs[k := v]) = sum_list xs - xs ! k + v"
  by (induction xs arbitrary: k) (auto split: nat.splits)

lemma nonneg_update:
  fixes xs :: "real list"
  assumes "\<forall>c\<in>set xs. 0 \<le> c" and "0 \<le> v"
  shows "\<forall>c\<in>set (xs[k := v]). 0 \<le> c"
  using assms set_update_subset_insert [of xs k v] by auto

lemma py_index_nonneg: "0 \<le> i \<Longrightarrow> i < int n \<Longrightarrow> py_index n i = Some (nat i)"
  by (simp add: py_index_def)

lemma deposit_step:
  fixes C :: "real list"
  assumes i: "0 \<le> i" "i + 1 < int (length C)" and N: "int (length C) \<le> N"
  shows "deposit N C ((i, xi) # rest)
           = deposit N (C[nat i := C ! nat i + xi, nat (i + 1) := C[nat i := C ! nat i + xi] ! nat (i + 1) + (1 - xi)]) rest"
proof -
  have "\<not> i > N - 1" using i N by simp
  moreover have "py_index (length C) i = Some (nat i)"
    using i by (simp add: py_index_nonneg)
  moreover have "py_index (length (C[nat i := C ! nat i + xi])) (i + 1) = Some (nat (i + 1))"
    using i by (simp add: py_index_nonneg)
  ultimately show ?thesis by (simp add: Let_def)
qed

lemma deposit_ok:
  fixes C :: "real list"
  assumes "\<forall>p\<in>set ps. 0 \<le> fst p \<and> fst p + 1 < int (length C) \<and> 0 \<le> snd p \<and> snd p \<le> 1"
    and "int (length C) \<le> N" and "\<forall>c\<in>set C. 0 \<le> c"
  shows "\<exists>C'. deposit N C ps = Inr C' \<and> length C' = length C \<and> (\<forall>c\<in>set C'. 0 \<le> c)
              \<and> sum_list C' = sum_list C + real (length ps)"
  using assms
proof (induction ps arbitrary: C)
  case Nil
  then show ?case by simp
next
  case (Cons p ps)
  obtain i xi where p: "p = (i, xi)" by (cases p)
  have i: "0 \<le> i" "i + 1 < int (length C)" and xi: "0 \<le> xi" "xi \<le> 1"
    using Cons.prems(1) by (simp_all add: p)
  let ?C1 = "C[nat i := C ! nat i + xi]"
  let ?C2 = "?C1[nat (i + 1) := ?C1 ! nat (i + 1) + (1 - xi)]"
  have j: "nat i < length C" "nat (i + 1) < length C" using i by simp_all
  have step: "deposit N C (p # ps) = deposit N ?C2 ps"
    unfolding p by (rule deposit_step [OF i Cons.prems(2)])
  have len: "length ?C2 = length C" by simp
  have "0 \<le> C ! nat i" using Cons.prems(3) j(1) by simp
  then have "0 \<le> C ! nat i + xi" using xi by simp
  from nonneg_update [OF Cons.prems(3) this]
  have nn1: "\<forall>c\<in>set ?C1. 0 \<le> c" .
  have "0 \<le> ?C1 ! nat (i + 1)" using nn1 j(2) by simp
  then have "0 \<le> ?C1 ! nat (i + 1) + (1 - xi)" using xi by simp
  from nonneg_update [OF nn1 this]
  have nn2: "\<forall>c\<in>set ?C2. 0 \<le> c" .
  have s1: "sum_list ?C1 = sum_list C + xi"
    using j(1) by (simp add: sum_list_update_real)
  have s2: "sum_list ?C2 = sum_list C + 1"
    using j(2) s1 by (simp add: sum_list_update_real)
  have pre: "\<forall>q\<in>set ps. 0 \<le> fst q \<and> fst q + 1 < int (length ?C2) \<and> 0 \<le> snd q \<and> snd q \<le> 1"
    using Cons.prems(1) by simp
  from Cons.IH [OF pre _ nn2] Cons.prems(2)
  obtain C' where "deposit N ?C2 ps = Inr C'" "length C' = length ?C2" "\<forall>c\<in>set C'. 0 \<le> c"
    "sum_list C' = sum_list ?C2 + real (length ps)"
    by auto
  then show ?case
    by (simp add: step s2)
qed

lemma elem_le_sum_list_nonneg:
  fixes xs :: "real list"
  assumes "x \<in> set xs" and "\<forall>y\<in>set xs. 0 \<le> y"
  shows "x \<le> sum_list xs"
  using assms
proof (induction xs)
  case Nil
  then show ?case by simp
next
  case (Cons y ys)
  have "0 \<le> sum_list ys" using Cons.prems(2) by (simp add: sum_list_nonneg)
  moreover have "0 \<le> y" using Cons.prems(2) by simp
  ultimately show ?case using Cons by auto
qed

lemma conv_entry_lower:
  fixes a b :: "real list"
  assumes "t < length a" and "K < length b"
    and "\<forall>x\<in>set a. 0 \<le> x" and "\<forall>y\<in>set b. 0 \<le> y"
  shows "a ! t * b ! K
     \<le> sum_list (map (\<lambda>k. a ! k * b ! (K + t - k))
                   (filter (\<lambda>k. k \<le> K + t \<and> K + t - k < length b) [0..<length a]))"
proof (rule elem_le_sum_list_nonneg)
  have "t \<in> set (filter (\<lambda>k. k \<le> K + t \<and> K + t - k < length b) [0..<length a])"
    using assms(1,2) by simp
  then have "a ! t * b ! (K + t - t)
      \<in> set (map (\<lambda>k. a ! k * b ! (K + t - k))
              (filter (\<lambda>k. k \<le> K + t \<and> K + t - k < length b) [0..<length a]))"
    unfolding set_map by (rule imageI)
  then show "a ! t * b ! K
      \<in> set (map (\<lambda>k. a ! k * b ! (K + t - k))
              (filter (\<lambda>k. k \<le> K + t \<and> K + t - k < length b) [0..<length a]))"
    by simp
  show "\<forall>y\<in>set (map (\<lambda>k. a ! k * b ! (K + t - k))
              (filter (\<lambda>k. k \<le> K + t \<and> K + t - k < length b) [0..<length a])). 0 \<le> y"
    using assms(3,4) by (auto intro!: mult_nonneg_nonneg)
qed

lemma convmode_lower:
  fixes a b :: "real list"
  assumes "a \<noteq> []" and "length b = 2 * K + 1"
    and "\<forall>x\<in>set a. 0 \<le> x" and "\<forall>y\<in>set b. 0 \<le> y"
  shows "\<exists>B1. convmode a b 1 = Inr B1 \<and> length B1 = length a \<and> b ! K * sum_list a \<le> sum_list B1"
proof -
  let ?n = "length a"
  let ?f = "\<lambda>j. sum_list (map (\<lambda>k. a ! k * b ! (j - k))
                                   (filter (\<lambda>k. k \<le> j \<and> j - k < length b) [0..<?n]))"
  let ?C1 = "map ?f [0..<?n + length b - 1]"
  let ?B1 = "drop K (take (?n + K) ?C1)"
  have b: "b \<noteq> []" using assms(2) by auto
  have half: "length b div 2 = K" using assms(2) by simp
  have conv: "np_convolve a b = Inr ?C1" using assms(1) b by (simp add: np_convolve_def)
  have run: "convmode a b 1 = Inr ?B1"
    by (simp add: convmode_def conv half Let_def)
  have len: "length ?B1 = ?n" using assms(2) by simp
  have B1: "?B1 = map (\<lambda>t. ?f (K + t)) [0..<?n]"
  proof (rule nth_equalityI)
    show "length ?B1 = length (map (\<lambda>t. ?f (K + t)) [0..<?n])" using len by simp
    fix t assume "t < length ?B1"
    then have t: "t < ?n" using len by simp
    then have "?B1 ! t = ?C1 ! (K + t)" using assms(2) by simp
    also have "\<dots> = ?f (K + t)" using t assms(2) by simp
    finally show "?B1 ! t = map (\<lambda>t. ?f (K + t)) [0..<?n] ! t" using t by simp
  qed
  have "sum_list (map (\<lambda>t. a ! t * b ! K) [0..<?n]) \<le> sum_list (map (\<lambda>t. ?f (K + t)) [0..<?n])"
  proof (rule sum_list_mono)
    fix t assume "t \<in> set [0..<?n]"
    then have "t < ?n" by simp
    moreover have "K < length b" using assms(2) by simp
    ultimately show "a ! t * b ! K \<le> ?f (K + t)"
      using conv_entry_lower [OF _ _ assms(3,4)] by blast
  qed
  moreover have "sum_list (map (\<lambda>t. a ! t * b ! K) [0..<?n]) = b ! K * sum_list a"
  proof -
    have "sum_list (map (\<lambda>t. a ! t * b ! K) [0..<?n]) = sum_list (map (\<lambda>t. a ! t) [0..<?n]) * b ! K"
      by (rule sum_list_mult_const)
    then show ?thesis by (simp add: map_nth)
  qed
  ultimately have "b ! K * sum_list a \<le> sum_list ?B1" by (simp only: B1)
  with run len show ?thesis by blast
qed

lemma zip_floor_weights:
  "zip (map floor cA) (map2 (\<lambda>i c. 1 + real_of_int i - c) (map floor cA) cA)
     = map (\<lambda>c. (\<lfloor>c\<rfloor>, 1 + real_of_int \<lfloor>c\<rfloor> - c)) cA"
  for cA :: "real list"
  by (induction cA) simp_all

lemma length_upto_sym: "0 \<le> K \<Longrightarrow> length [- K..K] = 2 * nat K + 1"
  by simp

lemma sum_list_pos_real:
  fixes xs :: "real list"
  assumes "xs \<noteq> []" and "\<forall>x\<in>set xs. 0 < x"
  shows "0 < sum_list xs"
  using assms by (induction xs) (auto simp: add_pos_nonneg sum_list_nonneg less_imp_le)

lemma kernel_props:
  fixes G0 :: "real list"
  assumes "G0 \<noteq> []" and "\<forall>g\<in>set G0. 0 < g"
  shows "\<forall>g\<in>set (map (\<lambda>g. g / sum_list G0) G0). 0 < g"
  using sum_list_pos_real [OF assms] assms(2) by simp

text \<open>
  Claim C6. For every nonempty array of samples, every \<open>sigma > 0\<close>, every charge \<open>q0\<close> and
  velocity \<open>v\<close>, \<^verbatim>\<open>s_to_cur\<close> returns normally a grid of equal positive steps and a profile of
  finite heights, one per grid point, and the sum of the heights times the step is \<open>q0 * v\<close>.
\<close>

theorem s_to_cur_integral:
  assumes "A \<noteq> []" and "0 < sigma"
  shows "\<exists>B0 hs. s_to_cur A sigma q0 v = Inr (B0, map Some hs)
           \<and> length hs = length B0
           \<and> B0 = map (\<lambda>k. B0 ! 0 + real k * bin_width B0) [0..<length B0]
           \<and> 0 < bin_width B0
           \<and> sum_list hs * bin_width B0 = q0 * v"
proof -
  define a where "a = Min (set A) - 3 * sigma"
  define b where "b = Max (set A) + 3 * sigma"
  define N where "N = \<lceil>(b - a) / (0.25 * sigma)\<rceil>"
  define s where "s = (b - a) / real_of_int N"
  let ?B0 = "map (\<lambda>k. real_of_int k * s + a) [0..N]"
  let ?C = "replicate (nat (N + 1)) (0::real)"
  let ?cA = "map (\<lambda>x. (x - a) / s) A"
  let ?I = "map floor ?cA"
  let ?xiA = "map2 (\<lambda>i c. 1 + real_of_int i - c) ?I ?cA"
  define K where "K = \<lfloor>3 * sigma / s + 0.5\<rfloor>"
  let ?E = "map (\<lambda>j. exp (- 0.5 * (real_of_int j * s / sigma)\<^sup>2)) [- K..K]"
  let ?G = "map (\<lambda>g. g / sum_list ?E) ?E"
  have mm: "Min (set A) \<le> x \<and> x \<le> Max (set A)" if "x \<in> set A" for x
    using that by simp
  have "Min (set A) \<le> Max (set A)" using assms(1) mm [of "hd A"] by simp
  then have ba: "6 * sigma \<le> b - a" by (simp add: a_def b_def)
  then have ba_pos: "0 < b - a" using assms(2) by linarith
  have "24 \<le> (b - a) / (0.25 * sigma)" using ba assms(2) by (simp add: field_simps)
  then have "\<lceil>24 :: real\<rceil> \<le> N" unfolding N_def by (rule ceiling_mono)
  then have N: "24 \<le> N" by simp
  then have Npos: "(0::real) < real_of_int N" by simp
  have s: "0 < s" unfolding s_def by (rule divide_pos_pos [OF ba_pos Npos])
  have Ns: "(b - a) / s = real_of_int N" using Npos ba_pos by (simp add: s_def)
  have lenB0: "int (length ?B0) = N + 1" using N by simp
  have pre: "\<forall>p\<in>set (zip ?I ?xiA).
      0 \<le> fst p \<and> fst p + 1 < int (length ?C) \<and> 0 \<le> snd p \<and> snd p \<le> 1"
  proof
    fix p assume "p \<in> set (zip ?I ?xiA)"
    then obtain c where c: "c \<in> set ?cA" and p: "p = (\<lfloor>c\<rfloor>, 1 + real_of_int \<lfloor>c\<rfloor> - c)"
      unfolding zip_floor_weights by auto
    from c obtain x where x: "x \<in> set A" and cx: "c = (x - a) / s" by auto
    have "0 < x - a" using mm [OF x] assms(2) by (simp add: a_def)
    then have c0: "0 < c" using s by (simp add: cx)
    have "x - a < b - a" using mm [OF x] assms(2) by (simp add: a_def b_def)
    then have "c < (b - a) / s" unfolding cx using s by (rule divide_strict_right_mono)
    then have cN: "c < real_of_int N" by (simp only: Ns)
    have f0: "0 \<le> \<lfloor>c\<rfloor>" using c0 by simp
    have "\<lfloor>c\<rfloor> < N" using cN by linarith
    then have f1: "\<lfloor>c\<rfloor> + 1 < int (length ?C)" using N by simp
    have x1: "0 \<le> 1 + real_of_int \<lfloor>c\<rfloor> - c" by linarith
    have x2: "1 + real_of_int \<lfloor>c\<rfloor> - c \<le> 1" by linarith
    show "0 \<le> fst p \<and> fst p + 1 < int (length ?C) \<and> 0 \<le> snd p \<and> snd p \<le> 1"
      unfolding p fst_conv snd_conv using f0 f1 x1 x2 by blast
  qed
  have "int (length ?C) \<le> int (length ?B0)" using N by simp
  from deposit_ok [OF pre this]
  obtain C' where dep: "deposit (int (length ?B0)) ?C (zip ?I ?xiA) = Inr C'"
    and lenC': "length C' = length ?C" and nnC': "\<forall>c\<in>set C'. 0 \<le> c"
    and sumC': "sum_list C' = sum_list ?C + real (length (zip ?I ?xiA))"
    by auto
  have "sum_list ?C = 0" by (simp add: sum_list_replicate)
  moreover have "0 < real (length (zip ?I ?xiA))" using assms(1) by simp
  ultimately have sumC: "0 < sum_list C'" by (simp only: sumC' add_0_left)
  have C'ne: "C' \<noteq> []" using lenC' N by auto
  have "0 < 3 * sigma / s" using assms(2) s by simp
  then have K: "0 \<le> K" unfolding K_def by simp
  have lenG: "length ?G = 2 * nat K + 1" using K by simp
  have G0ne: "?E \<noteq> []" using K by simp
  have G0pos: "\<forall>g\<in>set ?E. 0 < g" by simp
  have Gpos: "\<forall>g\<in>set ?G. 0 < g" by (rule kernel_props [OF G0ne G0pos])
  then have Gnn: "\<forall>g\<in>set ?G. 0 \<le> g" by (blast intro: less_imp_le)
  from convmode_lower [OF C'ne lenG nnC' Gnn]
  obtain B1 where conv: "convmode C' ?G 1 = Inr B1" and lenB1: "length B1 = length C'"
    and low: "?G ! nat K * sum_list C' \<le> sum_list B1"
    by auto
  have "nat K < length ?G" using lenG by simp
  then have "0 < ?G ! nat K" using Gpos nth_mem by blast
  then have "0 < ?G ! nat K * sum_list C'" using sumC by (rule mult_pos_pos)
  then have S: "0 < sum_list B1" using low by linarith
  define koef where "koef = q0 * v / (s * sum_list B1)"
  let ?hs = "map (\<lambda>h. koef * h) B1"
  have den: "s * sum_list B1 \<noteq> 0" using s S by simp
  have run: "s_to_cur A sigma q0 v = Inr (?B0, map Some ?hs)"
  proof -
    have t1: "(0.25 * sigma = 0) = False" using assms(2) by simp
    have t2: "(N = 0 \<or> N + 1 < 0) = False" using N by simp
    have k: "fdiv (Some (q0 * v)) (Some (s * sum_list B1)) = Some koef"
      using den by (simp add: float_simps koef_def)
    have m: "map (\<lambda>h. fmul (Some koef) (Some h)) B1 = map Some ?hs"
      by (simp add: float_simps)
    show ?thesis
      by (simp only: s_to_cur_def Let_def assms(1) if_False a_def [symmetric] b_def [symmetric]
          t1 N_def [symmetric] t2 s_def [symmetric] K_def [symmetric] dep conv sum.case k m)
  qed
  have len: "length ?hs = length ?B0" using lenB1 lenC' N by simp
  have bw: "bin_width ?B0 = s"
  proof -
    have "[0..N] ! 0 = 0" "[0..N] ! 1 = 1"
      using N nth_upto [of 0 0 N] nth_upto [of 0 1 N] by simp_all
    moreover have "0 < length [0..N]" "1 < length [0..N]" using N by simp_all
    ultimately show ?thesis by (simp add: bin_width_def)
  qed
  have B00: "?B0 ! 0 = a"
  proof -
    have "[0..N] ! 0 = 0" using N nth_upto [of 0 0 N] by simp
    moreover have "0 < length [0..N]" using N by simp
    ultimately show ?thesis by simp
  qed
  have grid: "?B0 = map (\<lambda>k. ?B0 ! 0 + real k * bin_width ?B0) [0..<length ?B0]"
  proof -
    have "[0..N] = map int [0..<nat (N + 1)]"
      using upto_map_int [of "nat (N + 1)"] N by simp
    then have "?B0 = map (\<lambda>k. real_of_int (int k) * s + a) [0..<nat (N + 1)]"
      by (simp only: map_map comp_def)
    also have "\<dots> = map (\<lambda>k. a + real k * s) [0..<nat (N + 1)]"
      by (simp add: add.commute)
    finally have e: "?B0 = map (\<lambda>k. a + real k * s) [0..<nat (N + 1)]" .
    have "length ?B0 = nat (N + 1)" by simp
    then show ?thesis unfolding B00 bw using e by simp
  qed
  have "sum_list ?hs = koef * sum_list B1"
    using sum_list_const_mult [of koef "\<lambda>h. h" B1] by simp
  then have "sum_list ?hs * s = q0 * v" using den by (simp add: koef_def field_simps)
  with run len bw grid s show ?thesis by metis
qed

theorem s_to_cur_integral_witness:
  "[0 :: real] \<noteq> [] \<and> (0 :: real) < 1 \<and>
   (\<exists>B0 hs. s_to_cur [0] 1 2 3 = Inr (B0, map Some hs) \<and> length hs = length B0 \<and>
      0 < bin_width B0 \<and> sum_list hs * bin_width B0 = 6)"
  using s_to_cur_integral [of "[0]" 1 2 3] by auto

end
